theory Spec2Isabelle
  imports Main "HOL-Library.Multiset" "HOL-Library.Signed_Division"
begin

unbundle bit_operations_syntax

section \<open>The facelet cube (cube.h, cube.cpp)\<close>

text \<open>
  \<^verbatim>\<open>enum class Color : uint8_t { White, Yellow, Red, Orange, Green, Blue }\<close>.
  The state of a cube is \<^verbatim>\<open>std::array<Color, 54> state_\<close>: a list of colours that
  always has 54 entries, facelet \<open>face * 9 + pos\<close>.
\<close>

datatype Color = White | Yellow | Red | Orange | Green | Blue

type_synonym Cube = "Color list"

text \<open>\<^verbatim>\<open>static_cast<int>(c)\<close> for a colour.\<close>

fun colorIndex :: "Color \<Rightarrow> nat" where
  "colorIndex White = 0"
| "colorIndex Yellow = 1"
| "colorIndex Red = 2"
| "colorIndex Orange = 3"
| "colorIndex Green = 4"
| "colorIndex Blue = 5"

text \<open>\<^verbatim>\<open>enum Face : int { FACE_U = 0, FACE_D, FACE_L, FACE_R, FACE_F, FACE_B }\<close>\<close>

abbreviation (input) FACE_U :: nat where "FACE_U \<equiv> 0"
abbreviation (input) FACE_D :: nat where "FACE_D \<equiv> 1"
abbreviation (input) FACE_L :: nat where "FACE_L \<equiv> 2"
abbreviation (input) FACE_R :: nat where "FACE_R \<equiv> 3"
abbreviation (input) FACE_F :: nat where "FACE_F \<equiv> 4"
abbreviation (input) FACE_B :: nat where "FACE_B \<equiv> 5"

text \<open>The macro \<^verbatim>\<open>#define I(face, pos) ((face) * 9 + (pos))\<close>.\<close>

definition I :: "nat \<Rightarrow> nat \<Rightarrow> nat" where
  "I face pos = face * 9 + pos"

text \<open>
  \<^verbatim>\<open>enum class Move : uint8_t { U, Up, U2, D, Dp, D2, L, Lp, L2, R, Rp, R2, F, Fp, F2,
  B, Bp, B2, COUNT }\<close>. A move is its enum index; the solver uses the same indices as
  \<^verbatim>\<open>int\<close>. The legal moves are the indices below 18.
\<close>

type_synonym Move = nat

abbreviation (input) Move_U :: Move where "Move_U \<equiv> 0"
abbreviation (input) Move_Up :: Move where "Move_Up \<equiv> 1"
abbreviation (input) Move_U2 :: Move where "Move_U2 \<equiv> 2"
abbreviation (input) Move_D :: Move where "Move_D \<equiv> 3"
abbreviation (input) Move_Dp :: Move where "Move_Dp \<equiv> 4"
abbreviation (input) Move_D2 :: Move where "Move_D2 \<equiv> 5"
abbreviation (input) Move_L :: Move where "Move_L \<equiv> 6"
abbreviation (input) Move_Lp :: Move where "Move_Lp \<equiv> 7"
abbreviation (input) Move_L2 :: Move where "Move_L2 \<equiv> 8"
abbreviation (input) Move_R :: Move where "Move_R \<equiv> 9"
abbreviation (input) Move_Rp :: Move where "Move_Rp \<equiv> 10"
abbreviation (input) Move_R2 :: Move where "Move_R2 \<equiv> 11"
abbreviation (input) Move_F :: Move where "Move_F \<equiv> 12"
abbreviation (input) Move_Fp :: Move where "Move_Fp \<equiv> 13"
abbreviation (input) Move_F2 :: Move where "Move_F2 \<equiv> 14"
abbreviation (input) Move_B :: Move where "Move_B \<equiv> 15"
abbreviation (input) Move_Bp :: Move where "Move_Bp \<equiv> 16"
abbreviation (input) Move_B2 :: Move where "Move_B2 \<equiv> 17"

subsection \<open>reset\<close>

definition kFaceColor :: "Color list" where
  "kFaceColor = [White, Yellow, Green, Blue, Red, Orange]"

text \<open>\<^verbatim>\<open>Cube::reset\<close> writes every facelet, so the result does not depend on the old state.\<close>

definition reset :: Cube where
  "reset = concat (map (\<lambda>f. replicate 9 (kFaceColor ! f)) [0..<6])"

subsection \<open>Moves\<close>

definition rotateFaceCW :: "nat \<Rightarrow> Cube \<Rightarrow> Cube" where
  "rotateFaceCW face s0 =
     (let b = face * 9;
          tmp = s0 ! (b + 0);
          s = s0[b + 0 := s0 ! (b + 6)];
          s = s[b + 6 := s ! (b + 8)];
          s = s[b + 8 := s ! (b + 2)];
          s = s[b + 2 := tmp];
          tmp = s ! (b + 1);
          s = s[b + 1 := s ! (b + 3)];
          s = s[b + 3 := s ! (b + 7)];
          s = s[b + 7 := s ! (b + 5)];
          s = s[b + 5 := tmp]
      in s)"

definition cycle4 :: "nat \<Rightarrow> nat \<Rightarrow> nat \<Rightarrow> nat \<Rightarrow> Cube \<Rightarrow> Cube" where
  "cycle4 a b c d s0 =
     (let tmp = s0 ! d;
          s = s0[d := s0 ! c];
          s = s[c := s ! b];
          s = s[b := s ! a];
          s = s[a := tmp]
      in s)"

text \<open>
  \<^verbatim>\<open>Cube::applyMove\<close>: a switch over the move; a primed move applies the clockwise turn
  three times, a half turn twice; any other value (\<^verbatim>\<open>default\<close>) leaves the state as it is.
\<close>

function applyMove :: "Move \<Rightarrow> Cube \<Rightarrow> Cube" where
  "applyMove m s =
     (if m = Move_U then
        cycle4 (I FACE_F 2) (I FACE_L 2) (I FACE_B 2) (I FACE_R 2)
          (cycle4 (I FACE_F 1) (I FACE_L 1) (I FACE_B 1) (I FACE_R 1)
            (cycle4 (I FACE_F 0) (I FACE_L 0) (I FACE_B 0) (I FACE_R 0)
              (rotateFaceCW FACE_U s)))
      else if m = Move_Up then applyMove Move_U (applyMove Move_U (applyMove Move_U s))
      else if m = Move_U2 then applyMove Move_U (applyMove Move_U s)
      else if m = Move_D then
        cycle4 (I FACE_F 8) (I FACE_R 8) (I FACE_B 8) (I FACE_L 8)
          (cycle4 (I FACE_F 7) (I FACE_R 7) (I FACE_B 7) (I FACE_L 7)
            (cycle4 (I FACE_F 6) (I FACE_R 6) (I FACE_B 6) (I FACE_L 6)
              (rotateFaceCW FACE_D s)))
      else if m = Move_Dp then applyMove Move_D (applyMove Move_D (applyMove Move_D s))
      else if m = Move_D2 then applyMove Move_D (applyMove Move_D s)
      else if m = Move_L then
        cycle4 (I FACE_U 6) (I FACE_F 6) (I FACE_D 6) (I FACE_B 2)
          (cycle4 (I FACE_U 3) (I FACE_F 3) (I FACE_D 3) (I FACE_B 5)
            (cycle4 (I FACE_U 0) (I FACE_F 0) (I FACE_D 0) (I FACE_B 8)
              (rotateFaceCW FACE_L s)))
      else if m = Move_Lp then applyMove Move_L (applyMove Move_L (applyMove Move_L s))
      else if m = Move_L2 then applyMove Move_L (applyMove Move_L s)
      else if m = Move_R then
        cycle4 (I FACE_U 8) (I FACE_B 0) (I FACE_D 8) (I FACE_F 8)
          (cycle4 (I FACE_U 5) (I FACE_B 3) (I FACE_D 5) (I FACE_F 5)
            (cycle4 (I FACE_U 2) (I FACE_B 6) (I FACE_D 2) (I FACE_F 2)
              (rotateFaceCW FACE_R s)))
      else if m = Move_Rp then applyMove Move_R (applyMove Move_R (applyMove Move_R s))
      else if m = Move_R2 then applyMove Move_R (applyMove Move_R s)
      else if m = Move_F then
        cycle4 (I FACE_U 8) (I FACE_R 6) (I FACE_D 0) (I FACE_L 2)
          (cycle4 (I FACE_U 7) (I FACE_R 3) (I FACE_D 1) (I FACE_L 5)
            (cycle4 (I FACE_U 6) (I FACE_R 0) (I FACE_D 2) (I FACE_L 8)
              (rotateFaceCW FACE_F s)))
      else if m = Move_Fp then applyMove Move_F (applyMove Move_F (applyMove Move_F s))
      else if m = Move_F2 then applyMove Move_F (applyMove Move_F s)
      else if m = Move_B then
        cycle4 (I FACE_U 0) (I FACE_L 6) (I FACE_D 8) (I FACE_R 2)
          (cycle4 (I FACE_U 1) (I FACE_L 3) (I FACE_D 7) (I FACE_R 5)
            (cycle4 (I FACE_U 2) (I FACE_L 0) (I FACE_D 6) (I FACE_R 8)
              (rotateFaceCW FACE_B s)))
      else if m = Move_Bp then applyMove Move_B (applyMove Move_B (applyMove Move_B s))
      else if m = Move_B2 then applyMove Move_B (applyMove Move_B s)
      else s)"
  by pat_completeness auto
termination
  by (relation "measure (\<lambda>(m, s). if m mod 3 = 0 then 0 else 1)") auto

declare applyMove.simps [simp del]

text \<open>A sequence of moves, applied in order.\<close>

fun applyMoves :: "Move list \<Rightarrow> Cube \<Rightarrow> Cube" where
  "applyMoves [] s = s"
| "applyMoves (m # ms) s = applyMoves ms (applyMove m s)"

subsection \<open>isSolved, inverseMove\<close>

definition isSolved :: "Cube \<Rightarrow> bool" where
  "isSolved s =
     list_all (\<lambda>f. let center = s ! (f * 9 + 4)
                    in list_all (\<lambda>i. s ! (f * 9 + i) = center) [0..<9]) [0..<6]"

definition inverseMove :: "Move \<Rightarrow> Move" where
  "inverseMove m =
     (let idx = m; face = idx div 3; type = idx mod 3
      in if type = 0 then face * 3 + 1
         else if type = 1 then face * 3
         else m)"

subsection \<open>Cubie queries\<close>

definition cornerFacelets :: "nat list list" where
  "cornerFacelets =
    [[I FACE_U 8, I FACE_R 0, I FACE_F 2],
     [I FACE_U 6, I FACE_F 0, I FACE_L 2],
     [I FACE_U 0, I FACE_L 0, I FACE_B 2],
     [I FACE_U 2, I FACE_B 0, I FACE_R 2],
     [I FACE_D 2, I FACE_F 8, I FACE_R 6],
     [I FACE_D 0, I FACE_L 8, I FACE_F 6],
     [I FACE_D 6, I FACE_B 8, I FACE_L 6],
     [I FACE_D 8, I FACE_R 8, I FACE_B 6]]"

definition cornerColors :: "Color list list" where
  "cornerColors =
    [[White, Blue, Red],
     [White, Red, Green],
     [White, Green, Orange],
     [White, Orange, Blue],
     [Yellow, Red, Blue],
     [Yellow, Green, Red],
     [Yellow, Orange, Green],
     [Yellow, Blue, Orange]]"

definition edgeFacelets :: "nat list list" where
  "edgeFacelets =
    [[I FACE_U 5, I FACE_R 1],
     [I FACE_U 7, I FACE_F 1],
     [I FACE_U 3, I FACE_L 1],
     [I FACE_U 1, I FACE_B 1],
     [I FACE_D 5, I FACE_R 7],
     [I FACE_D 1, I FACE_F 7],
     [I FACE_D 3, I FACE_L 7],
     [I FACE_D 7, I FACE_B 7],
     [I FACE_F 5, I FACE_R 3],
     [I FACE_F 3, I FACE_L 5],
     [I FACE_B 5, I FACE_L 3],
     [I FACE_B 3, I FACE_R 5]]"

definition edgeColors :: "Color list list" where
  "edgeColors =
    [[White, Blue],
     [White, Red],
     [White, Green],
     [White, Orange],
     [Yellow, Blue],
     [Yellow, Red],
     [Yellow, Green],
     [Yellow, Orange],
     [Red, Blue],
     [Red, Green],
     [Orange, Green],
     [Orange, Blue]]"

text \<open>
  The loop of \<^verbatim>\<open>getCornerPermutation\<close> returns the first corner \<open>c\<close> whose three colours
  hold each of the three facelet colours, provided the three facelets differ; \<open>-1\<close> when
  there is none.
\<close>

definition getCornerPermutation :: "Cube \<Rightarrow> nat \<Rightarrow> int" where
  "getCornerPermutation s pos =
     (let c0 = s ! (cornerFacelets ! pos ! 0);
          c1 = s ! (cornerFacelets ! pos ! 1);
          c2 = s ! (cornerFacelets ! pos ! 2)
      in case find (\<lambda>c.
              ((c0 = cornerColors ! c ! 0 \<or> c0 = cornerColors ! c ! 1 \<or> c0 = cornerColors ! c ! 2) \<and>
               (c1 = cornerColors ! c ! 0 \<or> c1 = cornerColors ! c ! 1 \<or> c1 = cornerColors ! c ! 2) \<and>
               (c2 = cornerColors ! c ! 0 \<or> c2 = cornerColors ! c ! 1 \<or> c2 = cornerColors ! c ! 2)) \<and>
              (c0 \<noteq> c1 \<and> c1 \<noteq> c2 \<and> c0 \<noteq> c2)) [0..<8]
         of Some c \<Rightarrow> int c | None \<Rightarrow> - 1)"

definition getCornerOrientation :: "Cube \<Rightarrow> nat \<Rightarrow> int" where
  "getCornerOrientation s pos =
     (let c0 = s ! (cornerFacelets ! pos ! 0)
      in if c0 = White \<or> c0 = Yellow then 0
         else let c1 = s ! (cornerFacelets ! pos ! 1)
              in if c1 = White \<or> c1 = Yellow then 1 else 2)"

definition getEdgePermutation :: "Cube \<Rightarrow> nat \<Rightarrow> int" where
  "getEdgePermutation s pos =
     (let c0 = s ! (edgeFacelets ! pos ! 0);
          c1 = s ! (edgeFacelets ! pos ! 1)
      in case find (\<lambda>e.
              (c0 = edgeColors ! e ! 0 \<and> c1 = edgeColors ! e ! 1) \<or>
              (c0 = edgeColors ! e ! 1 \<and> c1 = edgeColors ! e ! 0)) [0..<12]
         of Some e \<Rightarrow> int e | None \<Rightarrow> - 1)"

definition getEdgeOrientation :: "Cube \<Rightarrow> nat \<Rightarrow> int" where
  "getEdgeOrientation s pos =
     (let c0 = s ! (edgeFacelets ! pos ! 0);
          ep = getEdgePermutation s pos
      in if ep < 0 then 0
         else if c0 = edgeColors ! nat ep ! 0 then 0 else 1)"

subsection \<open>isSolvable\<close>

text \<open>
  The colour count loop: \<^verbatim>\<open>counts[idx]++\<close> for every facelet. The guard
  \<^verbatim>\<open>idx < 0 || idx >= 6\<close> cannot fire for one of the six enumerators.
\<close>

definition colorCounts :: "Cube \<Rightarrow> nat list" where
  "colorCounts s =
     foldl (\<lambda>counts c. counts[colorIndex c := counts ! colorIndex c + 1]) (replicate 6 0) s"

text \<open>
  The corner loop of \<^verbatim>\<open>isSolvable\<close> over the positions still to visit; the state is
  \<^verbatim>\<open>(seenCorner, cornerPerm, coSum)\<close>, and \<open>None\<close> is an early \<^verbatim>\<open>return false\<close>.
\<close>

fun cornerScan :: "Cube \<Rightarrow> nat list \<Rightarrow> bool list \<times> int list \<times> int \<Rightarrow>
    (bool list \<times> int list \<times> int) option" where
  "cornerScan s [] st = Some st"
| "cornerScan s (i # rest) (seenCorner, cornerPerm, coSum) =
     (let cp = getCornerPermutation s i;
          co = getCornerOrientation s i
      in if cp < 0 \<or> cp \<ge> 8 then None
         else if co < 0 \<or> co \<ge> 3 then None
         else if seenCorner ! nat cp then None
         else cornerScan s rest
                (seenCorner[nat cp := True], cornerPerm[i := cp], (coSum + co) mod 3))"

fun edgeScan :: "Cube \<Rightarrow> nat list \<Rightarrow> bool list \<times> int list \<times> int \<Rightarrow>
    (bool list \<times> int list \<times> int) option" where
  "edgeScan s [] st = Some st"
| "edgeScan s (i # rest) (seenEdge, edgePerm, eoSum) =
     (let ep = getEdgePermutation s i;
          eo = getEdgeOrientation s i
      in if ep < 0 \<or> ep \<ge> 12 then None
         else if \<not> (eo = 0 \<or> eo = 1) then None
         else if seenEdge ! nat ep then None
         else edgeScan s rest
                (seenEdge[nat ep := True], edgePerm[i := ep], (eoSum + eo) mod 2))"

text \<open>The lambda \<^verbatim>\<open>parity\<close>: the number of inversions of \<open>p[0..n-1]\<close>, \<^verbatim>\<open>& 1\<close>.\<close>

definition parity :: "int list \<Rightarrow> nat \<Rightarrow> int" where
  "parity p n =
     (foldl (\<lambda>inv i. foldl (\<lambda>inv j. if p ! i > p ! j then inv + 1 else inv) inv [i + 1..<n])
        (0::int) [0..<n]) AND 1"

definition isSolvable :: "Cube \<Rightarrow> bool" where
  "isSolvable s =
     (let counts = colorCounts s
      in if \<not> list_all (\<lambda>i. counts ! i = 9) [0..<6] then False
         else case cornerScan s [0..<8] (replicate 8 False, replicate 8 0, 0) of
           None \<Rightarrow> False
         | Some (seenCorner, cornerPerm, coSum) \<Rightarrow>
             if coSum \<noteq> 0 then False
             else case edgeScan s [0..<12] (replicate 12 False, replicate 12 0, 0) of
               None \<Rightarrow> False
             | Some (seenEdge, edgePerm, eoSum) \<Rightarrow>
                 if eoSum \<noteq> 0 then False
                 else parity cornerPerm 8 = parity edgePerm 12)"

section \<open>The solver (solver.cpp)\<close>

subsection \<open>Move pruning\<close>

text \<open>
  \<^verbatim>\<open>moveAllowedPrune\<close> and \<^verbatim>\<open>Solver::moveAllowed\<close> have the same body. Both take
  \<^verbatim>\<open>int\<close>s; \<open>sdiv\<close> is the division of C++, which truncates towards zero.
\<close>

definition moveAllowedPrune :: "int \<Rightarrow> int \<Rightarrow> bool" where
  "moveAllowedPrune move lastMove =
     (if lastMove < 0 then True
      else let face = move sdiv 3; lastFace = lastMove sdiv 3
           in if face = lastFace then False
              else if face sdiv 2 = lastFace sdiv 2 \<and> face < lastFace then False
              else True)"

definition moveAllowed :: "int \<Rightarrow> int \<Rightarrow> bool" where
  "moveAllowed move lastMove =
     (if lastMove < 0 then True
      else let face = move sdiv 3; lastFace = lastMove sdiv 3
           in if face = lastFace then False
              else if face sdiv 2 = lastFace sdiv 2 \<and> face < lastFace then False
              else True)"

subsection \<open>Constants\<close>

definition kNumMoves :: nat where "kNumMoves = 18"

definition kNumPhase2Moves :: nat where "kNumPhase2Moves = 10"

definition kPhase2Moves :: "nat list" where
  "kPhase2Moves = [0, 1, 2, 3, 4, 5, 8, 11, 14, 17]"

definition kCO :: nat where "kCO = 2187"
definition kEO :: nat where "kEO = 2048"
definition kSLICE :: nat where "kSLICE = 495"
definition kCP :: nat where "kCP = 40320"
definition kEP :: nat where "kEP = 40320"
definition kSP :: nat where "kSP = 24"

text \<open>
  The table \<^verbatim>\<open>kBinom[n][k]\<close> (\<open>n \<le> 12\<close>, \<open>k \<le> 4\<close>), by the recurrence that fills it.
\<close>

fun kBinom :: "nat \<Rightarrow> nat \<Rightarrow> nat" where
  "kBinom n k =
     (if k = 0 then 1
      else if k > n then 0
      else if k = n then 1
      else kBinom (n - 1) (k - 1) + kBinom (n - 1) k)"

declare kBinom.simps [simp del]

definition kFact8 :: "nat list" where
  "kFact8 = [1, 1, 2, 6, 24, 120, 720, 5040, 40320]"

definition kFact4 :: "nat list" where
  "kFact4 = [1, 1, 2, 6, 24]"

subsection \<open>The coordinate codec\<close>

text \<open>
  Coordinates are \<^verbatim>\<open>int\<close>s that are never negative; they are natural numbers here. The
  loops that count down (\<^verbatim>\<open>for (int i = 6; i >= 0; i--)\<close>) run over the reversed index
  list.
\<close>

definition cornerOriCoord :: "nat list \<Rightarrow> nat" where
  "cornerOriCoord co = foldl (\<lambda>coord i. coord * 3 + (co ! i) mod 3) 0 [0..<7]"

definition cornerOriFromCoord :: "nat \<Rightarrow> nat list" where
  "cornerOriFromCoord coord0 =
     (let (co, sum, coord) =
            foldl (\<lambda>(co, sum, coord) i. (co[i := coord mod 3], sum + coord mod 3, coord div 3))
              (replicate 8 0, 0, coord0) (rev [0..<7])
      in co[7 := (3 - (sum mod 3)) mod 3])"

definition edgeOriCoord :: "nat list \<Rightarrow> nat" where
  "edgeOriCoord eo = foldl (\<lambda>coord i. coord * 2 + ((eo ! i) AND 1)) 0 [0..<11]"

definition edgeOriFromCoord :: "nat \<Rightarrow> nat list" where
  "edgeOriFromCoord coord0 =
     (let (eo, sum, coord) =
            foldl (\<lambda>(eo, sum, coord) i.
                (eo[i := coord AND 1], sum XOR (coord AND 1), drop_bit 1 coord))
              (replicate 12 0, 0, coord0) (rev [0..<11])
      in eo[11 := sum AND 1])"

text \<open>
  \<^verbatim>\<open>sliceCoord\<close>: \<open>k\<close> is an \<^verbatim>\<open>int\<close> that is decremented at every slice edge, whatever
  their number; the table is read only while \<open>k > 0\<close>.
\<close>

definition sliceCoord :: "nat list \<Rightarrow> nat" where
  "sliceCoord ep =
     fst (foldl (\<lambda>(coord, k) i.
                   if ep ! i \<ge> 8 then (coord, k - 1)
                   else if k > 0 then (coord + kBinom i (nat k), k)
                   else (coord, k))
            (0, 4 :: int) (rev [0..<12]))"

definition sliceFromCoord :: "nat \<Rightarrow> nat list" where
  "sliceFromCoord coord0 =
     (let (isSlicePos, coord, k) =
            foldl (\<lambda>(isSlicePos, coord, k) i.
                if k = 0 then (isSlicePos[i := False], coord, k)
                else let c = kBinom i k
                     in if coord \<ge> c then (isSlicePos[i := False], coord - c, k)
                        else (isSlicePos[i := True], coord, k - 1))
              (replicate 12 False, coord0, 4 :: nat) (rev [0..<12]);
          (ep, nextNS, nextSlice) =
            foldl (\<lambda>(ep, nextNS, nextSlice) i.
                if isSlicePos ! i then (ep[i := nextSlice], nextNS, nextSlice + 1)
                else (ep[i := nextNS], nextNS + 1, nextSlice))
              (replicate 12 0, 0 :: nat, 8 :: nat) [0..<12]
      in ep)"

definition perm8Coord :: "nat list \<Rightarrow> nat" where
  "perm8Coord p =
     foldl (\<lambda>coord i.
              let cnt = foldl (\<lambda>cnt j. if p ! j < p ! i then cnt + 1 else cnt) (0 :: nat) [i + 1..<8]
              in coord + cnt * (kFact8 ! (7 - i)))
       0 [0..<8]"

definition perm8FromCoord :: "nat \<Rightarrow> nat list" where
  "perm8FromCoord coord0 =
     (let (p, elems, coord, remaining) =
            foldl (\<lambda>(p, elems, coord, remaining) i.
                let fact = kFact8 ! (remaining - 1);
                    idx = coord div fact;
                    p' = p[i := elems ! idx];
                    elems' = foldl (\<lambda>elems j. elems[j := elems ! (j + 1)]) elems [idx..<remaining - 1]
                in (p', elems', coord mod fact, remaining - 1))
              (replicate 8 0, [0, 1, 2, 3, 4, 5, 6, 7], coord0, 8 :: nat) [0..<8]
      in p)"

definition perm4Coord :: "nat list \<Rightarrow> nat" where
  "perm4Coord p =
     foldl (\<lambda>coord i.
              let cnt = foldl (\<lambda>cnt j. if p ! j < p ! i then cnt + 1 else cnt) (0 :: nat) [i + 1..<4]
              in coord + cnt * (kFact4 ! (3 - i)))
       0 [0..<4]"

definition perm4FromCoord :: "nat \<Rightarrow> nat list" where
  "perm4FromCoord coord0 =
     (let (p, elems, coord, remaining) =
            foldl (\<lambda>(p, elems, coord, remaining) i.
                let fact = kFact4 ! (remaining - 1);
                    idx = coord div fact;
                    p' = p[i := elems ! idx];
                    elems' = foldl (\<lambda>elems j. elems[j := elems ! (j + 1)]) elems [idx..<remaining - 1]
                in (p', elems', coord mod fact, remaining - 1))
              (replicate 4 0, [0, 1, 2, 3], coord0, 4 :: nat) [0..<4]
      in p)"

subsection \<open>The cubie representation\<close>

text \<open>
  \<^verbatim>\<open>struct CubieCube\<close>: four arrays of \<^verbatim>\<open>uint8_t\<close>, of 8, 8, 12 and 12 entries.
  \<open>u8\<close> is \<^verbatim>\<open>static_cast<uint8_t>\<close> of an \<^verbatim>\<open>int\<close>.
\<close>

record CubieCube =
  cp :: "nat list"
  co :: "nat list"
  ep :: "nat list"
  eo :: "nat list"

definition u8 :: "int \<Rightarrow> nat" where
  "u8 x = nat (x mod 256)"

definition toCubie :: "Cube \<Rightarrow> CubieCube" where
  "toCubie cube =
     \<lparr> cp = map (\<lambda>i. u8 (getCornerPermutation cube i)) [0..<8],
       co = map (\<lambda>i. u8 (getCornerOrientation cube i)) [0..<8],
       ep = map (\<lambda>i. u8 (getEdgePermutation cube i)) [0..<12],
       eo = map (\<lambda>i. u8 (getEdgeOrientation cube i)) [0..<12] \<rparr>"

subsection \<open>Tables\<close>

text \<open>
  \<^verbatim>\<open>struct Tables\<close>. The four move effect arrays and \<^verbatim>\<open>invMove\<close> have one row per
  move; the move tables one row per coordinate value; the pruning tables are byte vectors.
\<close>

record Tables =
  cPos :: "nat list list"
  cOri :: "nat list list"
  ePos :: "nat list list"
  eOri :: "nat list list"
  invMove :: "nat list"
  coMove :: "nat list list"
  eoMove :: "nat list list"
  sliceMove :: "nat list list"
  cpMove :: "nat list list"
  epMove :: "nat list list"
  spMove :: "nat list list"
  pruneCoSlice :: "nat list"
  pruneEoSlice :: "nat list"
  pruneCpSp :: "nat list"
  pruneEpSp :: "nat list"

text \<open>\<^verbatim>\<open>Tables::applyMove\<close>: the piece-level composition rule.\<close>

definition Tables_applyMove :: "Tables \<Rightarrow> CubieCube \<Rightarrow> nat \<Rightarrow> CubieCube" where
  "Tables_applyMove t cc move =
     \<lparr> cp = map (\<lambda>i. cp cc ! (cPos t ! move ! i)) [0..<8],
       co = map (\<lambda>i. (co cc ! (cPos t ! move ! i) + cOri t ! move ! i) mod 3) [0..<8],
       ep = map (\<lambda>i. ep cc ! (ePos t ! move ! i)) [0..<12],
       eo = map (\<lambda>i. (eo cc ! (ePos t ! move ! i)) XOR (eOri t ! move ! i)) [0..<12] \<rparr>"

text \<open>
  The first block of \<^verbatim>\<open>Tables::init\<close>: apply each of the 18 moves to a freshly reset
  cube and read the cubies back.
\<close>

definition initMoveEffects :: "Tables \<Rightarrow> Tables" where
  "initMoveEffects t =
     t\<lparr> cPos := map (\<lambda>m. cp (toCubie (applyMove m reset))) [0..<kNumMoves],
        cOri := map (\<lambda>m. co (toCubie (applyMove m reset))) [0..<kNumMoves],
        ePos := map (\<lambda>m. ep (toCubie (applyMove m reset))) [0..<kNumMoves],
        eOri := map (\<lambda>m. eo (toCubie (applyMove m reset))) [0..<kNumMoves],
        invMove := map inverseMove [0..<kNumMoves] \<rparr>"

text \<open>
  \<^verbatim>\<open>static Tables g_tables;\<close> before \<^verbatim>\<open>init\<close>: the arrays are zero, the vectors empty.
\<close>

definition g_tables0 :: Tables where
  "g_tables0 =
     \<lparr> cPos = replicate 18 (replicate 8 0),
       cOri = replicate 18 (replicate 8 0),
       ePos = replicate 18 (replicate 12 0),
       eOri = replicate 18 (replicate 12 0),
       invMove = replicate 18 0,
       coMove = [], eoMove = [], sliceMove = [],
       cpMove = [], epMove = [], spMove = [],
       pruneCoSlice = [], pruneEoSlice = [], pruneCpSp = [], pruneEpSp = [] \<rparr>"

subsection \<open>Reads of a table\<close>

text \<open>
  \<^verbatim>\<open>operator[]\<close> of \<^verbatim>\<open>std::vector\<close> and \<^verbatim>\<open>std::array\<close> is not checked. A read inside
  the table gives the element. A read past the end has no defined behaviour and the
  program goes on with the byte that lies there; the model reads 0, the content of the
  zero-filled page that ends the block of a large vector. The functions below write
  \<^verbatim>\<open>prune[nidx]\<close> only after they have read \<^verbatim>\<open>0xFF\<close> at \<^verbatim>\<open>nidx\<close>, so they never write
  past the end.
\<close>

definition at :: "nat list \<Rightarrow> nat \<Rightarrow> nat" where
  "at xs i = (if i < length xs then xs ! i else 0)"

definition at2 :: "nat list list \<Rightarrow> nat \<Rightarrow> nat \<Rightarrow> nat" where
  "at2 xss i j = (if i < length xss then at (xss ! i) j else 0)"

subsection \<open>The rest of Tables::init\<close>

definition u16 :: "nat \<Rightarrow> nat" where
  "u16 x = x mod 65536"

text \<open>\<^verbatim>\<open>CubieCube solved = toCubie(base)\<close> for the reset cube \<^verbatim>\<open>base\<close>.\<close>

definition solvedCubie :: CubieCube where
  "solvedCubie = toCubie reset"

definition initPhase1Moves :: "Tables \<Rightarrow> Tables" where
  "initPhase1Moves t =
     t\<lparr> coMove := map (\<lambda>c. map (\<lambda>m.
            u16 (cornerOriCoord (co (Tables_applyMove t (solvedCubie\<lparr>co := cornerOriFromCoord c\<rparr>) m))))
            [0..<kNumMoves]) [0..<kCO],
        eoMove := map (\<lambda>e. map (\<lambda>m.
            u16 (edgeOriCoord (eo (Tables_applyMove t (solvedCubie\<lparr>eo := edgeOriFromCoord e\<rparr>) m))))
            [0..<kNumMoves]) [0..<kEO],
        sliceMove := map (\<lambda>sl. map (\<lambda>m.
            u16 (sliceCoord (ep (Tables_applyMove t (solvedCubie\<lparr>ep := sliceFromCoord sl\<rparr>) m))))
            [0..<kNumMoves]) [0..<kSLICE] \<rparr>"

definition edgePermCoord8_fromEp :: "nat list \<Rightarrow> nat" where
  "edgePermCoord8_fromEp e = perm8Coord (map (\<lambda>i. e ! i) [0..<8])"

definition slicePermCoord_fromEp :: "nat list \<Rightarrow> nat" where
  "slicePermCoord_fromEp e = perm4Coord (map (\<lambda>i. u8 (int (e ! (8 + i)) - 8)) [0..<4])"

definition initPhase2Moves :: "Tables \<Rightarrow> Tables" where
  "initPhase2Moves t =
     t\<lparr> cpMove := map (\<lambda>c. map (\<lambda>mi.
            u16 (perm8Coord (cp (Tables_applyMove t (solvedCubie\<lparr>cp := perm8FromCoord c\<rparr>)
                                   (kPhase2Moves ! mi)))))
            [0..<kNumPhase2Moves]) [0..<kCP],
        epMove := map (\<lambda>e. map (\<lambda>mi.
            u16 (perm8Coord (map (\<lambda>i.
                   ep (Tables_applyMove t
                         (solvedCubie\<lparr>ep := perm8FromCoord e @ [8, 9, 10, 11]\<rparr>)
                         (kPhase2Moves ! mi)) ! i) [0..<8])))
            [0..<kNumPhase2Moves]) [0..<kEP],
        spMove := map (\<lambda>s. map (\<lambda>mi.
            u8 (int (perm4Coord (map (\<lambda>i.
                   u8 (int (ep (Tables_applyMove t
                         (solvedCubie\<lparr>ep := [0, 1, 2, 3, 4, 5, 6, 7] @ map (\<lambda>x. u8 (int (8 + x))) (perm4FromCoord s)\<rparr>)
                         (kPhase2Moves ! mi)) ! (8 + i)) - 8)) [0..<4]))))
            [0..<kNumPhase2Moves]) [0..<kSP] \<rparr>"

text \<open>
  The breadth-first searches that fill the pruning tables. One queue entry \<open>idx\<close> is
  expanded by the loop over the moves; \<open>prune\<close> and the queue \<open>q\<close> are the state. The
  outer loop runs while \<open>head < q.size()\<close>; nothing in the code bounds it, so it is a
  partial function and \<open>None\<close> stands for a loop that never ends.
\<close>

fun pruneExpand :: "nat \<Rightarrow> nat list list \<Rightarrow> nat list list \<Rightarrow> nat \<Rightarrow> nat \<Rightarrow> nat \<Rightarrow> nat list \<Rightarrow>
    nat list \<times> nat list \<Rightarrow> nat list \<times> nat list" where
  "pruneExpand sizeB moveA moveB a b d [] (prune, q) = (prune, q)"
| "pruneExpand sizeB moveA moveB a b d (m # ms) (prune, q) =
     (let na = at2 moveA a m;
          nb = at2 moveB b m;
          nidx = na * sizeB + nb
      in if at prune nidx \<noteq> 255 then pruneExpand sizeB moveA moveB a b d ms (prune, q)
         else pruneExpand sizeB moveA moveB a b d ms
                (prune[nidx := (d + 1) mod 256], q @ [nidx]))"

partial_function (option) pruneLoop :: "nat \<Rightarrow> nat list list \<Rightarrow> nat list list \<Rightarrow> nat list \<Rightarrow>
    nat list \<Rightarrow> nat list \<Rightarrow> nat \<Rightarrow> nat list option" where
  "pruneLoop sizeB moveA moveB moves prune q head =
     (if head < length q then
        (let idx = q ! head; a = idx div sizeB; b = idx mod sizeB; d = at prune idx
         in case pruneExpand sizeB moveA moveB a b d moves (prune, q) of
              (prune', q') \<Rightarrow> pruneLoop sizeB moveA moveB moves prune' q' (head + 1))
      else Some prune)"

text \<open>
  \<^verbatim>\<open>buildPrunePhase1\<close> and \<^verbatim>\<open>buildPrunePhase2\<close>: a vector of \<open>sizeA * sizeB\<close> bytes
  \<^verbatim>\<open>0xFF\<close>, entry 0 set to 0, and the search from the queue \<open>[0]\<close>.
\<close>

definition buildPrune :: "nat \<Rightarrow> nat \<Rightarrow> nat list list \<Rightarrow> nat list list \<Rightarrow> nat \<Rightarrow> nat list option" where
  "buildPrune sizeA sizeB moveA moveB numMoves =
     pruneLoop sizeB moveA moveB [0..<numMoves] ((replicate (sizeA * sizeB) 255)[0 := 0]) [0] 0"

definition initPrune :: "Tables \<Rightarrow> Tables option" where
  "initPrune t =
     (case buildPrune kCO kSLICE (coMove t) (sliceMove t) kNumMoves of
        None \<Rightarrow> None | Some p1 \<Rightarrow>
      case buildPrune kEO kSLICE (eoMove t) (sliceMove t) kNumMoves of
        None \<Rightarrow> None | Some p2 \<Rightarrow>
      case buildPrune kCP kSP (cpMove t) (spMove t) kNumPhase2Moves of
        None \<Rightarrow> None | Some p3 \<Rightarrow>
      case buildPrune kCP kSP (epMove t) (spMove t) kNumPhase2Moves of
        None \<Rightarrow> None | Some p4 \<Rightarrow>
        Some (t\<lparr> pruneCoSlice := p1, pruneEoSlice := p2,
                  pruneCpSp := p3, pruneEpSp := p4 \<rparr>))"

text \<open>
  \<^verbatim>\<open>Tables::init\<close>, and \<^verbatim>\<open>tables()\<close>: the tables every solve of the process uses
  (\<^verbatim>\<open>std::call_once\<close> runs \<^verbatim>\<open>init\<close> on the zero-initialised \<^verbatim>\<open>g_tables\<close>). The
  assertions of the debug build (\<open>solved.cp[i] == i\<close>, \<open>solved.ep[i] == i\<close>) hold, see
  \<open>reset_cubies\<close> below.
\<close>

definition Tables_init :: "Tables \<Rightarrow> Tables option" where
  "Tables_init t = initPrune (initPhase2Moves (initPhase1Moves (initMoveEffects t)))"

definition tables :: "Tables option" where
  "tables = Tables_init g_tables0"

subsection \<open>Cancellation and progress\<close>

text \<open>
  \<^verbatim>\<open>struct SolverProgress { std::atomic<uint64_t> nodes; std::atomic<int> depth; }\<close>.
  The caller may pass no progress record and no cancel flag (null pointers). Another
  thread may set the flag at any time, so the flag is the sequence of values that the
  successive loads of the search observe; \<open>polls\<close> counts the loads made so far.
\<close>

record SolverProgress =
  prog_nodes :: nat
  prog_depth :: int

record Env =
  polls :: nat
  progress :: "SolverProgress option"

type_synonym CancelFlag = "(nat \<Rightarrow> bool) option"

text \<open>\<^verbatim>\<open>cancel && cancel->load(std::memory_order_relaxed)\<close>\<close>

definition cancelRequested :: "CancelFlag \<Rightarrow> Env \<Rightarrow> bool \<times> Env" where
  "cancelRequested cancel env =
     (case cancel of
        None \<Rightarrow> (False, env)
      | Some flag \<Rightarrow> (flag (polls env), env\<lparr>polls := polls env + 1\<rparr>))"

text \<open>\<^verbatim>\<open>if (progress) progress->nodes.fetch_add(1)\<close>\<close>

definition countNode :: "Env \<Rightarrow> Env" where
  "countNode env =
     env\<lparr>progress :=
       map_option (\<lambda>p. p\<lparr>prog_nodes := (prog_nodes p + 1) mod 2 ^ 64\<rparr>) (progress env)\<rparr>"

definition storeDepth :: "int \<Rightarrow> Env \<Rightarrow> Env" where
  "storeDepth d env =
     env\<lparr>progress := map_option (\<lambda>p. p\<lparr>prog_depth := d\<rparr>) (progress env)\<rparr>"

definition storeNodes :: "nat \<Rightarrow> Env \<Rightarrow> Env" where
  "storeNodes n env =
     env\<lparr>progress := map_option (\<lambda>p. p\<lparr>prog_nodes := n\<rparr>) (progress env)\<rparr>"

subsection \<open>The two searches\<close>

text \<open>
  \<^verbatim>\<open>searchPhase2\<close> returns whether it found a solution; the path and the environment
  are passed through. The loop over the ten moves is \<open>searchPhase2_moves\<close>; its argument
  \<open>depth1\<close> is \<^verbatim>\<open>depth - 1\<close>, the depth of the recursive calls.
\<close>

function searchPhase2 :: "Tables \<Rightarrow> CancelFlag \<Rightarrow> nat \<Rightarrow> nat \<Rightarrow> nat \<Rightarrow> nat \<Rightarrow> int \<Rightarrow>
      nat list \<Rightarrow> Env \<Rightarrow> bool \<times> nat list \<times> Env"
  and searchPhase2_moves :: "Tables \<Rightarrow> CancelFlag \<Rightarrow> nat \<Rightarrow> nat \<Rightarrow> nat \<Rightarrow> nat \<Rightarrow> int \<Rightarrow>
      nat \<Rightarrow> nat list \<Rightarrow> Env \<Rightarrow> bool \<times> nat list \<times> Env" where
  "searchPhase2 t cancel cpc epc spc depth lastMove path env =
     (case cancelRequested cancel env of
        (True, env1) \<Rightarrow> (False, path, env1)
      | (False, env1) \<Rightarrow>
          let env2 = countNode env1;
              h1 = at (pruneCpSp t) (cpc * kSP + spc);
              h2 = at (pruneEpSp t) (epc * kSP + spc);
              h = max h1 h2
          in if h > depth then (False, path, env2)
             else if depth = 0 then (cpc = 0 \<and> epc = 0 \<and> spc = 0, path, env2)
             else searchPhase2_moves t cancel cpc epc spc (depth - 1) lastMove 0 path env2)"
| "searchPhase2_moves t cancel cpc epc spc depth1 lastMove mi path env =
     (if mi \<ge> kNumPhase2Moves then (False, path, env)
      else let move = kPhase2Moves ! mi
           in if \<not> moveAllowedPrune (int move) lastMove
              then searchPhase2_moves t cancel cpc epc spc depth1 lastMove (mi + 1) path env
              else
                let ncp = at2 (cpMove t) cpc mi;
                    nep = at2 (epMove t) epc mi;
                    nsp = at2 (spMove t) spc mi
                in case searchPhase2 t cancel ncp nep nsp depth1 (int move) (path @ [move]) env of
                     (True, path', env') \<Rightarrow> (True, path', env')
                   | (False, path', env') \<Rightarrow>
                       searchPhase2_moves t cancel cpc epc spc depth1 lastMove (mi + 1)
                         (butlast path') env')"
  by pat_completeness auto
termination
  by (relation "inv_image (less_than <*lex*> less_than <*lex*> less_than)
        (\<lambda>x. case x of
           Inl (t, cancel, cpc, epc, spc, depth, lastMove, path, env) \<Rightarrow> (depth, 0, 0)
         | Inr (t, cancel, cpc, epc, spc, depth1, lastMove, mi, path, env) \<Rightarrow>
             (depth1, 1, kNumPhase2Moves - mi))")
    (auto simp: kNumPhase2Moves_def)

text \<open>
  The loop \<^verbatim>\<open>for (int d2 = 0; d2 <= maxDepth2; d2++)\<close> at a leaf of phase 1, from \<open>d2\<close> on;
  \<^verbatim>\<open>path2\<close> is cleared before every search.
\<close>

function phase2Depths :: "Tables \<Rightarrow> CancelFlag \<Rightarrow> nat \<Rightarrow> nat \<Rightarrow> nat \<Rightarrow> nat \<Rightarrow> int \<Rightarrow> Env \<Rightarrow>
    bool \<times> nat list \<times> Env" where
  "phase2Depths t cancel cpc epc spc d2 maxDepth2 env =
     (if int d2 > maxDepth2 then (False, [], env)
      else case searchPhase2 t cancel cpc epc spc d2 (- 1) [] env of
             (True, path2, env') \<Rightarrow> (True, path2, env')
           | (False, path2, env') \<Rightarrow>
               (case cancelRequested cancel env' of
                  (True, env'') \<Rightarrow> (False, path2, env'')
                | (False, env'') \<Rightarrow>
                    phase2Depths t cancel cpc epc spc (d2 + 1) maxDepth2 env''))"
  by pat_completeness auto
termination
  by (relation "measure (\<lambda>(t, cancel, cpc, epc, spc, d2, maxDepth2, env).
        nat (maxDepth2 + 1 - int d2))") auto

text \<open>
  \<^verbatim>\<open>searchPhase1\<close>: the cubie state \<open>cc\<close> is changed in place and restored with the
  inverse move after a failed branch, so it is passed through as well, with \<open>path1\<close> and
  \<open>outPhase2\<close>. \<open>depth1\<close> of the move loop is \<^verbatim>\<open>depth - 1\<close>.
\<close>

function searchPhase1 :: "Tables \<Rightarrow> CancelFlag \<Rightarrow> CubieCube \<Rightarrow> nat \<Rightarrow> int \<Rightarrow> nat list \<Rightarrow>
      nat list \<Rightarrow> nat \<Rightarrow> Env \<Rightarrow> bool \<times> CubieCube \<times> nat list \<times> nat list \<times> Env"
  and searchPhase1_moves :: "Tables \<Rightarrow> CancelFlag \<Rightarrow> CubieCube \<Rightarrow> nat \<Rightarrow> int \<Rightarrow> nat \<Rightarrow>
      nat list \<Rightarrow> nat list \<Rightarrow> nat \<Rightarrow> Env \<Rightarrow>
      bool \<times> CubieCube \<times> nat list \<times> nat list \<times> Env" where
  "searchPhase1 t cancel cc depth lastMove path1 outPhase2 maxTotalDepth env =
     (case cancelRequested cancel env of
        (True, env1) \<Rightarrow> (False, cc, path1, outPhase2, env1)
      | (False, env1) \<Rightarrow>
          let env2 = countNode env1;
              coc = cornerOriCoord (co cc);
              eoc = edgeOriCoord (eo cc);
              sl = sliceCoord (ep cc);
              h1 = at (pruneCoSlice t) (coc * kSLICE + sl);
              h2 = at (pruneEoSlice t) (eoc * kSLICE + sl);
              h = max h1 h2
          in if h > depth then (False, cc, path1, outPhase2, env2)
             else if depth = 0 then
               (if \<not> (coc = 0 \<and> eoc = 0 \<and> sl = 0)
                then (False, cc, path1, outPhase2, env2)
                else
                  let cpc = perm8Coord (cp cc);
                      epc = edgePermCoord8_fromEp (ep cc);
                      spc = slicePermCoord_fromEp (ep cc);
                      maxDepth2 = int maxTotalDepth - int (length path1)
                  in case phase2Depths t cancel cpc epc spc 0 maxDepth2 env2 of
                       (True, path2, env3) \<Rightarrow> (True, cc, path1, path2, env3)
                     | (False, path2, env3) \<Rightarrow> (False, cc, path1, outPhase2, env3))
             else searchPhase1_moves t cancel cc (depth - 1) lastMove 0 path1 outPhase2
                    maxTotalDepth env2)"
| "searchPhase1_moves t cancel cc depth1 lastMove m path1 outPhase2 maxTotalDepth env =
     (if m \<ge> kNumMoves then (False, cc, path1, outPhase2, env)
      else if \<not> moveAllowedPrune (int m) lastMove
      then searchPhase1_moves t cancel cc depth1 lastMove (m + 1) path1 outPhase2 maxTotalDepth env
      else
        case searchPhase1 t cancel (Tables_applyMove t cc m) depth1 (int m) (path1 @ [m])
               outPhase2 maxTotalDepth env of
          (True, cc', path1', outPhase2', env') \<Rightarrow> (True, cc', path1', outPhase2', env')
        | (False, cc', path1', outPhase2', env') \<Rightarrow>
            searchPhase1_moves t cancel (Tables_applyMove t cc' (invMove t ! m)) depth1 lastMove
              (m + 1) (butlast path1') outPhase2' maxTotalDepth env')"
  by pat_completeness auto
termination
  by (relation "inv_image (less_than <*lex*> less_than <*lex*> less_than)
        (\<lambda>x. case x of
           Inl (t, cancel, cc, depth, lastMove, path1, outPhase2, maxTotalDepth, env) \<Rightarrow>
             (depth, 0, 0)
         | Inr (t, cancel, cc, depth1, lastMove, m, path1, outPhase2, maxTotalDepth, env) \<Rightarrow>
             (depth1, 1, kNumMoves - m))")
    (auto simp: kNumMoves_def)

declare searchPhase2.simps [simp del] searchPhase2_moves.simps [simp del]
  phase2Depths.simps [simp del] searchPhase1.simps [simp del] searchPhase1_moves.simps [simp del]

subsection \<open>Solver::solve\<close>

definition kMaxPhase1 :: nat where "kMaxPhase1 = 12"

definition kMaxTotal :: nat where "kMaxTotal = 31"

text \<open>
  The loop \<^verbatim>\<open>for (int d1 = 0; d1 <= kMaxPhase1; d1++)\<close> of \<^verbatim>\<open>solve\<close>, from \<open>d1\<close> on. Every
  round starts from a copy of the start state, with empty paths.
\<close>

function solveDepths :: "Tables \<Rightarrow> CancelFlag \<Rightarrow> CubieCube \<Rightarrow> nat \<Rightarrow> Env \<Rightarrow> Move list \<times> Env" where
  "solveDepths t cancel start d1 env =
     (if d1 > kMaxPhase1 then ([], env)
      else case cancelRequested cancel env of
             (True, env1) \<Rightarrow> ([], env1)
           | (False, env1) \<Rightarrow>
               (case searchPhase1 t cancel start d1 (- 1) [] [] kMaxTotal
                       (storeDepth (int d1) env1) of
                  (True, cc, path1, path2, env2) \<Rightarrow> (path1 @ path2, env2)
                | (False, cc, path1, path2, env2) \<Rightarrow>
                    solveDepths t cancel start (d1 + 1) env2))"
  by pat_completeness auto
termination
  by (relation "measure (\<lambda>(t, cancel, start, d1, env). kMaxPhase1 + 1 - d1)") auto

declare solveDepths.simps [simp del]

text \<open>
  \<^verbatim>\<open>Solver::solve(Cube& cube, std::atomic_bool* cancel, SolverProgress* progress)\<close>. The
  cube is passed by reference, so the model returns it with the solution: \<open>solve\<close> calls
  the \<^verbatim>\<open>const\<close> members \<^verbatim>\<open>isSolved\<close> and \<^verbatim>\<open>isSolvable\<close> and \<^verbatim>\<open>toCubie(const Cube&)\<close> on
  it and nothing else. The result is \<open>None\<close> when building the tables does not end.
\<close>

definition solve :: "Cube \<Rightarrow> CancelFlag \<Rightarrow> Env \<Rightarrow> (Move list \<times> Cube \<times> Env) option" where
  "solve cube cancel env =
     (if isSolved cube then Some ([], cube, env)
      else if \<not> isSolvable cube then Some ([], cube, env)
      else case cancelRequested cancel env of
             (True, env1) \<Rightarrow> Some ([], cube, env1)
           | (False, env1) \<Rightarrow>
               let env2 = storeDepth (- 1) (storeNodes 0 env1)
               in case tables of
                    None \<Rightarrow> None
                  | Some t \<Rightarrow>
                      let env3 = storeDepth 0 env2;
                          start = toCubie cube
                      in case solveDepths t cancel start 0 env3 of
                           (solution, env4) \<Rightarrow> Some (solution, cube, env4))"

text \<open>\<^verbatim>\<open>Solver::solve(Cube& cube)\<close>: no cancel flag, no progress record.\<close>

definition solve1 :: "Cube \<Rightarrow> (Move list \<times> Cube \<times> Env) option" where
  "solve1 cube = solve cube None \<lparr>polls = 0, progress = None\<rparr>"
section \<open>Facelet permutations of the moves\<close>

text \<open>
  Every move only moves facelets: the new state reads each facelet from a fixed old
  facelet. \<open>gather s p\<close> is the state whose facelet \<open>k\<close> is \<open>s ! (p ! k)\<close>; the
  lists below are what the eighteen moves do to the facelet numbers (they are proved
  to be so from \<open>applyMove\<close> below).
\<close>

definition gather :: "'a list \<Rightarrow> nat list \<Rightarrow> 'a list" where
  "gather s p = map (\<lambda>k. s ! k) p"

definition permU :: "nat list" where
  "permU =
    [6, 3, 0, 7, 4, 1, 8, 5, 2, 9, 10, 11, 12, 13, 14, 15, 16, 17, 36, 37, 38, 21, 22, 23,
     24, 25, 26, 45, 46, 47, 30, 31, 32, 33, 34, 35, 27, 28, 29, 39, 40, 41, 42, 43, 44, 18,
     19, 20, 48, 49, 50, 51, 52, 53]"

definition permUp :: "nat list" where
  "permUp =
    [2, 5, 8, 1, 4, 7, 0, 3, 6, 9, 10, 11, 12, 13, 14, 15, 16, 17, 45, 46, 47, 21, 22, 23,
     24, 25, 26, 36, 37, 38, 30, 31, 32, 33, 34, 35, 18, 19, 20, 39, 40, 41, 42, 43, 44, 27,
     28, 29, 48, 49, 50, 51, 52, 53]"

definition permU2 :: "nat list" where
  "permU2 =
    [8, 7, 6, 5, 4, 3, 2, 1, 0, 9, 10, 11, 12, 13, 14, 15, 16, 17, 27, 28, 29, 21, 22, 23,
     24, 25, 26, 18, 19, 20, 30, 31, 32, 33, 34, 35, 45, 46, 47, 39, 40, 41, 42, 43, 44, 36,
     37, 38, 48, 49, 50, 51, 52, 53]"

definition permD :: "nat list" where
  "permD =
    [0, 1, 2, 3, 4, 5, 6, 7, 8, 15, 12, 9, 16, 13, 10, 17, 14, 11, 18, 19, 20, 21, 22, 23,
     51, 52, 53, 27, 28, 29, 30, 31, 32, 42, 43, 44, 36, 37, 38, 39, 40, 41, 24, 25, 26, 45,
     46, 47, 48, 49, 50, 33, 34, 35]"

definition permDp :: "nat list" where
  "permDp =
    [0, 1, 2, 3, 4, 5, 6, 7, 8, 11, 14, 17, 10, 13, 16, 9, 12, 15, 18, 19, 20, 21, 22, 23,
     42, 43, 44, 27, 28, 29, 30, 31, 32, 51, 52, 53, 36, 37, 38, 39, 40, 41, 33, 34, 35, 45,
     46, 47, 48, 49, 50, 24, 25, 26]"

definition permD2 :: "nat list" where
  "permD2 =
    [0, 1, 2, 3, 4, 5, 6, 7, 8, 17, 16, 15, 14, 13, 12, 11, 10, 9, 18, 19, 20, 21, 22, 23,
     33, 34, 35, 27, 28, 29, 30, 31, 32, 24, 25, 26, 36, 37, 38, 39, 40, 41, 51, 52, 53, 45,
     46, 47, 48, 49, 50, 42, 43, 44]"

definition permL :: "nat list" where
  "permL =
    [53, 1, 2, 50, 4, 5, 47, 7, 8, 36, 10, 11, 39, 13, 14, 42, 16, 17, 24, 21, 18, 25, 22,
     19, 26, 23, 20, 27, 28, 29, 30, 31, 32, 33, 34, 35, 0, 37, 38, 3, 40, 41, 6, 43, 44,
     45, 46, 15, 48, 49, 12, 51, 52, 9]"

definition permLp :: "nat list" where
  "permLp =
    [36, 1, 2, 39, 4, 5, 42, 7, 8, 53, 10, 11, 50, 13, 14, 47, 16, 17, 20, 23, 26, 19, 22,
     25, 18, 21, 24, 27, 28, 29, 30, 31, 32, 33, 34, 35, 9, 37, 38, 12, 40, 41, 15, 43, 44,
     45, 46, 6, 48, 49, 3, 51, 52, 0]"

definition permL2 :: "nat list" where
  "permL2 =
    [9, 1, 2, 12, 4, 5, 15, 7, 8, 0, 10, 11, 3, 13, 14, 6, 16, 17, 26, 25, 24, 23, 22, 21,
     20, 19, 18, 27, 28, 29, 30, 31, 32, 33, 34, 35, 53, 37, 38, 50, 40, 41, 47, 43, 44, 45,
     46, 42, 48, 49, 39, 51, 52, 36]"

definition permR :: "nat list" where
  "permR =
    [0, 1, 38, 3, 4, 41, 6, 7, 44, 9, 10, 51, 12, 13, 48, 15, 16, 45, 18, 19, 20, 21, 22,
     23, 24, 25, 26, 33, 30, 27, 34, 31, 28, 35, 32, 29, 36, 37, 11, 39, 40, 14, 42, 43, 17,
     8, 46, 47, 5, 49, 50, 2, 52, 53]"

definition permRp :: "nat list" where
  "permRp =
    [0, 1, 51, 3, 4, 48, 6, 7, 45, 9, 10, 38, 12, 13, 41, 15, 16, 44, 18, 19, 20, 21, 22,
     23, 24, 25, 26, 29, 32, 35, 28, 31, 34, 27, 30, 33, 36, 37, 2, 39, 40, 5, 42, 43, 8,
     17, 46, 47, 14, 49, 50, 11, 52, 53]"

definition permR2 :: "nat list" where
  "permR2 =
    [0, 1, 11, 3, 4, 14, 6, 7, 17, 9, 10, 2, 12, 13, 5, 15, 16, 8, 18, 19, 20, 21, 22, 23,
     24, 25, 26, 35, 34, 33, 32, 31, 30, 29, 28, 27, 36, 37, 51, 39, 40, 48, 42, 43, 45, 44,
     46, 47, 41, 49, 50, 38, 52, 53]"

definition permF :: "nat list" where
  "permF =
    [0, 1, 2, 3, 4, 5, 26, 23, 20, 33, 30, 27, 12, 13, 14, 15, 16, 17, 18, 19, 9, 21, 22,
     10, 24, 25, 11, 6, 28, 29, 7, 31, 32, 8, 34, 35, 42, 39, 36, 43, 40, 37, 44, 41, 38,
     45, 46, 47, 48, 49, 50, 51, 52, 53]"

definition permFp :: "nat list" where
  "permFp =
    [0, 1, 2, 3, 4, 5, 27, 30, 33, 20, 23, 26, 12, 13, 14, 15, 16, 17, 18, 19, 8, 21, 22, 7,
     24, 25, 6, 11, 28, 29, 10, 31, 32, 9, 34, 35, 38, 41, 44, 37, 40, 43, 36, 39, 42, 45,
     46, 47, 48, 49, 50, 51, 52, 53]"

definition permF2 :: "nat list" where
  "permF2 =
    [0, 1, 2, 3, 4, 5, 11, 10, 9, 8, 7, 6, 12, 13, 14, 15, 16, 17, 18, 19, 33, 21, 22, 30,
     24, 25, 27, 26, 28, 29, 23, 31, 32, 20, 34, 35, 44, 43, 42, 41, 40, 39, 38, 37, 36, 45,
     46, 47, 48, 49, 50, 51, 52, 53]"

definition permB :: "nat list" where
  "permB =
    [29, 32, 35, 3, 4, 5, 6, 7, 8, 9, 10, 11, 12, 13, 14, 18, 21, 24, 2, 19, 20, 1, 22, 23,
     0, 25, 26, 27, 28, 17, 30, 31, 16, 33, 34, 15, 36, 37, 38, 39, 40, 41, 42, 43, 44, 51,
     48, 45, 52, 49, 46, 53, 50, 47]"

definition permBp :: "nat list" where
  "permBp =
    [24, 21, 18, 3, 4, 5, 6, 7, 8, 9, 10, 11, 12, 13, 14, 35, 32, 29, 15, 19, 20, 16, 22,
     23, 17, 25, 26, 27, 28, 0, 30, 31, 1, 33, 34, 2, 36, 37, 38, 39, 40, 41, 42, 43, 44,
     47, 50, 53, 46, 49, 52, 45, 48, 51]"

definition permB2 :: "nat list" where
  "permB2 =
    [17, 16, 15, 3, 4, 5, 6, 7, 8, 9, 10, 11, 12, 13, 14, 2, 1, 0, 35, 19, 20, 32, 22, 23,
     29, 25, 26, 27, 28, 24, 30, 31, 21, 33, 34, 18, 36, 37, 38, 39, 40, 41, 42, 43, 44, 53,
     52, 51, 50, 49, 48, 47, 46, 45]"

definition movePerm :: "Move \<Rightarrow> nat list" where
  "movePerm m =
    [permU, permUp, permU2, permD, permDp, permD2,
     permL, permLp, permL2, permR, permRp, permR2,
     permF, permFp, permF2, permB, permBp, permB2] ! m"

section \<open>Cubie effects of the moves\<close>

text \<open>
  The position and orientation changes of the eighteen moves, written out. They are
  proved below to be what \<open>initMoveEffects\<close> reads back from the facelet engine.
\<close>

definition cPosTab :: "nat list list" where
  "cPosTab =
    [[3, 0, 1, 2, 4, 5, 6, 7],
     [1, 2, 3, 0, 4, 5, 6, 7],
     [2, 3, 0, 1, 4, 5, 6, 7],
     [0, 1, 2, 3, 5, 6, 7, 4],
     [0, 1, 2, 3, 7, 4, 5, 6],
     [0, 1, 2, 3, 6, 7, 4, 5],
     [0, 2, 6, 3, 4, 1, 5, 7],
     [0, 5, 1, 3, 4, 6, 2, 7],
     [0, 6, 5, 3, 4, 2, 1, 7],
     [4, 1, 2, 0, 7, 5, 6, 3],
     [3, 1, 2, 7, 0, 5, 6, 4],
     [7, 1, 2, 4, 3, 5, 6, 0],
     [1, 5, 2, 3, 0, 4, 6, 7],
     [4, 0, 2, 3, 5, 1, 6, 7],
     [5, 4, 2, 3, 1, 0, 6, 7],
     [0, 1, 3, 7, 4, 5, 2, 6],
     [0, 1, 6, 2, 4, 5, 7, 3],
     [0, 1, 7, 6, 4, 5, 3, 2]]"

definition cOriTab :: "nat list list" where
  "cOriTab =
    [[0, 0, 0, 0, 0, 0, 0, 0],
     [0, 0, 0, 0, 0, 0, 0, 0],
     [0, 0, 0, 0, 0, 0, 0, 0],
     [0, 0, 0, 0, 0, 0, 0, 0],
     [0, 0, 0, 0, 0, 0, 0, 0],
     [0, 0, 0, 0, 0, 0, 0, 0],
     [0, 1, 2, 0, 0, 2, 1, 0],
     [0, 1, 2, 0, 0, 2, 1, 0],
     [0, 0, 0, 0, 0, 0, 0, 0],
     [2, 0, 0, 1, 1, 0, 0, 2],
     [2, 0, 0, 1, 1, 0, 0, 2],
     [0, 0, 0, 0, 0, 0, 0, 0],
     [1, 2, 0, 0, 2, 1, 0, 0],
     [1, 2, 0, 0, 2, 1, 0, 0],
     [0, 0, 0, 0, 0, 0, 0, 0],
     [0, 0, 1, 2, 0, 0, 2, 1],
     [0, 0, 1, 2, 0, 0, 2, 1],
     [0, 0, 0, 0, 0, 0, 0, 0]]"

definition ePosTab :: "nat list list" where
  "ePosTab =
    [[3, 0, 1, 2, 4, 5, 6, 7, 8, 9, 10, 11],
     [1, 2, 3, 0, 4, 5, 6, 7, 8, 9, 10, 11],
     [2, 3, 0, 1, 4, 5, 6, 7, 8, 9, 10, 11],
     [0, 1, 2, 3, 5, 6, 7, 4, 8, 9, 10, 11],
     [0, 1, 2, 3, 7, 4, 5, 6, 8, 9, 10, 11],
     [0, 1, 2, 3, 6, 7, 4, 5, 8, 9, 10, 11],
     [0, 1, 10, 3, 4, 5, 9, 7, 8, 2, 6, 11],
     [0, 1, 9, 3, 4, 5, 10, 7, 8, 6, 2, 11],
     [0, 1, 6, 3, 4, 5, 2, 7, 8, 10, 9, 11],
     [8, 1, 2, 3, 11, 5, 6, 7, 4, 9, 10, 0],
     [11, 1, 2, 3, 8, 5, 6, 7, 0, 9, 10, 4],
     [4, 1, 2, 3, 0, 5, 6, 7, 11, 9, 10, 8],
     [0, 9, 2, 3, 4, 8, 6, 7, 1, 5, 10, 11],
     [0, 8, 2, 3, 4, 9, 6, 7, 5, 1, 10, 11],
     [0, 5, 2, 3, 4, 1, 6, 7, 9, 8, 10, 11],
     [0, 1, 2, 11, 4, 5, 6, 10, 8, 9, 3, 7],
     [0, 1, 2, 10, 4, 5, 6, 11, 8, 9, 7, 3],
     [0, 1, 2, 7, 4, 5, 6, 3, 8, 9, 11, 10]]"

definition eOriTab :: "nat list list" where
  "eOriTab =
    [[0, 0, 0, 0, 0, 0, 0, 0, 0, 0, 0, 0],
     [0, 0, 0, 0, 0, 0, 0, 0, 0, 0, 0, 0],
     [0, 0, 0, 0, 0, 0, 0, 0, 0, 0, 0, 0],
     [0, 0, 0, 0, 0, 0, 0, 0, 0, 0, 0, 0],
     [0, 0, 0, 0, 0, 0, 0, 0, 0, 0, 0, 0],
     [0, 0, 0, 0, 0, 0, 0, 0, 0, 0, 0, 0],
     [0, 0, 0, 0, 0, 0, 0, 0, 0, 0, 0, 0],
     [0, 0, 0, 0, 0, 0, 0, 0, 0, 0, 0, 0],
     [0, 0, 0, 0, 0, 0, 0, 0, 0, 0, 0, 0],
     [0, 0, 0, 0, 0, 0, 0, 0, 0, 0, 0, 0],
     [0, 0, 0, 0, 0, 0, 0, 0, 0, 0, 0, 0],
     [0, 0, 0, 0, 0, 0, 0, 0, 0, 0, 0, 0],
     [0, 1, 0, 0, 0, 1, 0, 0, 1, 1, 0, 0],
     [0, 1, 0, 0, 0, 1, 0, 0, 1, 1, 0, 0],
     [0, 0, 0, 0, 0, 0, 0, 0, 0, 0, 0, 0],
     [0, 0, 0, 1, 0, 0, 0, 1, 0, 0, 1, 1],
     [0, 0, 0, 1, 0, 0, 0, 1, 0, 0, 1, 1],
     [0, 0, 0, 0, 0, 0, 0, 0, 0, 0, 0, 0]]"

text \<open>
  The bodies of the four cubie queries as functions of the facelet colours they read.
\<close>

definition cornerMatch :: "Color \<Rightarrow> Color \<Rightarrow> Color \<Rightarrow> int" where
  "cornerMatch c0 c1 c2 =
     (case find (\<lambda>c.
              ((c0 = cornerColors ! c ! 0 \<or> c0 = cornerColors ! c ! 1 \<or> c0 = cornerColors ! c ! 2) \<and>
               (c1 = cornerColors ! c ! 0 \<or> c1 = cornerColors ! c ! 1 \<or> c1 = cornerColors ! c ! 2) \<and>
               (c2 = cornerColors ! c ! 0 \<or> c2 = cornerColors ! c ! 1 \<or> c2 = cornerColors ! c ! 2)) \<and>
              (c0 \<noteq> c1 \<and> c1 \<noteq> c2 \<and> c0 \<noteq> c2)) [0..<8]
      of Some c \<Rightarrow> int c | None \<Rightarrow> - 1)"

definition cornerTwist :: "Color \<Rightarrow> Color \<Rightarrow> int" where
  "cornerTwist c0 c1 =
     (if c0 = White \<or> c0 = Yellow then 0 else if c1 = White \<or> c1 = Yellow then 1 else 2)"

definition edgeMatch :: "Color \<Rightarrow> Color \<Rightarrow> int" where
  "edgeMatch c0 c1 =
     (case find (\<lambda>e.
              (c0 = edgeColors ! e ! 0 \<and> c1 = edgeColors ! e ! 1) \<or>
              (c0 = edgeColors ! e ! 1 \<and> c1 = edgeColors ! e ! 0)) [0..<12]
      of Some e \<Rightarrow> int e | None \<Rightarrow> - 1)"

definition edgeFlip :: "Color \<Rightarrow> Color \<Rightarrow> int" where
  "edgeFlip c0 c1 =
     (let ep = edgeMatch c0 c1
      in if ep < 0 then 0 else if c0 = edgeColors ! nat ep ! 0 then 0 else 1)"

text \<open>Two faces are opposite when they are U and D, L and R, or F and B.\<close>

definition oppositeFaces :: "int \<Rightarrow> int \<Rightarrow> bool" where
  "oppositeFaces f g \<longleftrightarrow> (f, g) \<in> {(0, 1), (1, 0), (2, 3), (3, 2), (4, 5), (5, 4)}"

section \<open>Measures for the breadth-first searches\<close>

text \<open>
  The number of entries of a pruning table that still hold \<^verbatim>\<open>0xFF\<close>, and the work the
  queue entries from \<open>head\<close> on stand for: an entry whose depth is 254 writes \<^verbatim>\<open>0xFF\<close> again
  and may push one index for every move, any other entry pushes only indices that it
  takes away from the ones that hold \<^verbatim>\<open>0xFF\<close>.
\<close>

definition unvisited :: "nat list \<Rightarrow> nat" where
  "unvisited prune = count (mset prune) 255"

definition cost :: "nat \<Rightarrow> nat \<Rightarrow> nat" where
  "cost n v = (if v mod 256 = 254 then n + 1 else 1)"

definition pending :: "nat \<Rightarrow> nat list \<Rightarrow> nat list \<Rightarrow> nat \<Rightarrow> nat" where
  "pending n prune q head = sum_list (map (\<lambda>i. cost n (at prune i)) (drop head q))"

section \<open>Two cubes\<close>

text \<open>
  A scramble of 23 legal moves and the state it gives (proved below): every corner is
  in place, the corners URF to DBL are turned counter-clockwise and DRB clockwise, and
  the four slice edges are in the U layer.
\<close>

definition scramble23 :: "Move list" where
  "scramble23 = [8, 17, 8, 4, 11, 17, 1, 11, 4, 14, 5, 8, 3, 11, 14, 7, 1, 9, 7, 3, 17, 5, 7]"

definition twistedState :: Cube where
  "twistedState =
     [Green, Orange, Orange, Orange, White, Red, Red, Red, Blue, Green, Yellow, Red,
      Yellow, Yellow, Yellow, Orange, Yellow, Orange, Orange, Green, White, Green, Green,
      Red, Yellow, Green, Red, Red, Blue, White, Blue, Blue, Orange, Yellow, Blue, Yellow,
      Green, Green, White, White, Red, White, Yellow, Red, Blue, Blue, Blue, White, White,
      Orange, White, Blue, Orange, Green]"

text \<open>
  The reset cube with the centres of U and D exchanged, a state \<^verbatim>\<open>setState\<close> accepts.
  No sequence of face turns moves a centre.
\<close>

definition centresExchanged :: Cube where
  "centresExchanged = reset[4 := Yellow, 13 := White]"

section \<open>Basic facts\<close>

text \<open>Facelet numbers stay numerals: \<open>n + 2\<close> is not rewritten to \<open>Suc (Suc n)\<close>.\<close>

declare add_2_eq_Suc' [simp del] add_2_eq_Suc [simp del]

lemma I_simps [simp]: "I f p = f * 9 + p"
  by (simp add: I_def)

lemma upt_lits:
  "[0..<6] = [0, 1, 2, 3, 4, 5]"
  "[0..<8] = [0, 1, 2, 3, 4, 5, 6, 7]"
  "[0..<9] = [0, 1, 2, 3, 4, 5, 6, 7, 8]"
  "[0..<12] = [0, 1, 2, 3, 4, 5, 6, 7, 8, 9, 10, 11]"
  by code_simp+

text \<open>A facelet number below 54 is \<open>f * 9 + p\<close> for a face \<open>f\<close> and a position \<open>p\<close>.\<close>

lemma all_less_54:
  "(\<forall>i<54::nat. P i) = list_all (\<lambda>f. list_all (\<lambda>p. P (f * 9 + p)) [0..<9]) [0..<6]"
proof
  assume "\<forall>i<54. P i"
  then show "list_all (\<lambda>f. list_all (\<lambda>p. P (f * 9 + p)) [0..<9]) [0..<6]"
    by (auto simp: list_all_iff)
next
  assume h: "list_all (\<lambda>f. list_all (\<lambda>p. P (f * 9 + p)) [0..<9]) [0..<6]"
  show "\<forall>i<54. P i"
  proof (intro allI impI)
    fix i :: nat
    assume "i < 54"
    then have "i div 9 \<in> set [0..<6]" and "i mod 9 \<in> set [0..<9]" by auto
    with h have "P (i div 9 * 9 + i mod 9)" unfolding list_all_iff by blast
    then show "P i" by simp
  qed
qed

lemmas all_less_54_lits = all_less_54[unfolded upt_lits]

lemma move_disj:
  fixes m :: nat
  shows "m = 0 \<or> m = 1 \<or> m = 2 \<or> m = 3 \<or> m = 4 \<or> m = 5 \<or> m = 6 \<or> m = 7 \<or> m = 8 \<or>
    m = 9 \<or> m = 10 \<or> m = 11 \<or> m = 12 \<or> m = 13 \<or> m = 14 \<or> m = 15 \<or> m = 16 \<or> m = 17 \<or>
    18 \<le> m"
  by presburger

lemma move_cases:
  fixes m :: nat
  obtains "m = 0" | "m = 1" | "m = 2" | "m = 3" | "m = 4" | "m = 5" | "m = 6" | "m = 7"
    | "m = 8" | "m = 9" | "m = 10" | "m = 11" | "m = 12" | "m = 13" | "m = 14" | "m = 15"
    | "m = 16" | "m = 17" | "18 \<le> m"
  using move_disj[of m] by blast

lemma length_cycle4 [simp]: "length (cycle4 a b c d s) = length s"
  by (simp add: cycle4_def Let_def)

lemma length_rotateFaceCW [simp]: "length (rotateFaceCW f s) = length s"
  by (simp add: rotateFaceCW_def Let_def)

lemma cycle4_nth:
  "a < length s \<Longrightarrow> b < length s \<Longrightarrow> c < length s \<Longrightarrow> d < length s \<Longrightarrow>
   a \<noteq> b \<Longrightarrow> a \<noteq> c \<Longrightarrow> a \<noteq> d \<Longrightarrow> b \<noteq> c \<Longrightarrow> b \<noteq> d \<Longrightarrow> c \<noteq> d \<Longrightarrow>
   cycle4 a b c d s ! i =
     (if i = a then s ! d else if i = b then s ! a else if i = c then s ! b
      else if i = d then s ! c else s ! i)"
  by (simp add: cycle4_def Let_def nth_list_update)

text \<open>The face rotation is two four-cycles of the same shape as \<open>cycle4\<close>.\<close>

lemma rotateFaceCW_cycle4:
  "rotateFaceCW f s =
     cycle4 (f * 9 + 5) (f * 9 + 7) (f * 9 + 3) (f * 9 + 1)
       (cycle4 (f * 9 + 2) (f * 9 + 8) (f * 9 + 6) (f * 9 + 0) s)"
  by (simp add: rotateFaceCW_def cycle4_def Let_def)

lemmas applyMove_base = applyMove.simps[of 0] applyMove.simps[of 3] applyMove.simps[of 6]
  applyMove.simps[of 9] applyMove.simps[of 12] applyMove.simps[of 15]

lemmas applyMove_derived =
  applyMove.simps[of 1] applyMove.simps[of "Suc 0"] applyMove.simps[of 2] applyMove.simps[of 4]
  applyMove.simps[of 5] applyMove.simps[of 7] applyMove.simps[of 8] applyMove.simps[of 10]
  applyMove.simps[of 11] applyMove.simps[of 13] applyMove.simps[of 14] applyMove.simps[of 16]
  applyMove.simps[of 17]

lemma applyMove_default: "18 \<le> m \<Longrightarrow> applyMove m s = s"
  by (simp add: applyMove.simps[of m])

lemma length_applyMove_base:
  "length (applyMove 0 s) = length s" "length (applyMove 3 s) = length s"
  "length (applyMove 6 s) = length s" "length (applyMove 9 s) = length s"
  "length (applyMove 12 s) = length s" "length (applyMove 15 s) = length s"
  by (simp_all add: applyMove_base)

lemma length_applyMove [simp]: "length (applyMove m s) = length s"
  by (cases m rule: move_cases)
    (simp_all add: length_applyMove_base applyMove_derived applyMove_default)

lemma length_applyMoves [simp]: "length (applyMoves ms s) = length s"
  by (induction ms arbitrary: s) simp_all

lemma length_gather [simp]: "length (gather s p) = length p"
  by (simp add: gather_def)

lemma gather_gather:
  "list_all (\<lambda>k. k < length p) q \<Longrightarrow> gather (gather s p) q = gather s (gather p q)"
  by (simp add: gather_def list_all_iff)

lemma nth_gather: "k < length p \<Longrightarrow> gather s p ! k = s ! (p ! k)"
  by (simp add: gather_def)

lemmas perm_defs =
  permU_def permUp_def permU2_def permD_def permDp_def permD2_def
  permL_def permLp_def permL2_def permR_def permRp_def permR2_def
  permF_def permFp_def permF2_def permB_def permBp_def permB2_def

lemma length_perm [simp]:
  "length permU = 54" "length permUp = 54" "length permU2 = 54"
  "length permD = 54" "length permDp = 54" "length permD2 = 54"
  "length permL = 54" "length permLp = 54" "length permL2 = 54"
  "length permR = 54" "length permRp = 54" "length permR2 = 54"
  "length permF = 54" "length permFp = 54" "length permF2 = 54"
  "length permB = 54" "length permBp = 54" "length permB2 = 54"
  by (simp_all add: perm_defs)

lemma perm_bounded:
  "list_all (\<lambda>k. k < 54) permU" "list_all (\<lambda>k. k < 54) permUp"
  "list_all (\<lambda>k. k < 54) permU2" "list_all (\<lambda>k. k < 54) permD"
  "list_all (\<lambda>k. k < 54) permDp" "list_all (\<lambda>k. k < 54) permD2"
  "list_all (\<lambda>k. k < 54) permL" "list_all (\<lambda>k. k < 54) permLp"
  "list_all (\<lambda>k. k < 54) permL2" "list_all (\<lambda>k. k < 54) permR"
  "list_all (\<lambda>k. k < 54) permRp" "list_all (\<lambda>k. k < 54) permR2"
  "list_all (\<lambda>k. k < 54) permF" "list_all (\<lambda>k. k < 54) permFp"
  "list_all (\<lambda>k. k < 54) permF2" "list_all (\<lambda>k. k < 54) permB"
  "list_all (\<lambda>k. k < 54) permBp" "list_all (\<lambda>k. k < 54) permB2"
  by (simp_all add: perm_defs)

text \<open>The clockwise turns, read off the code of \<open>applyMove\<close> facelet by facelet.\<close>

lemma applyMove_U_gather:
  assumes "length s = 54"
  shows "applyMove 0 s = gather s permU"
proof (rule nth_equalityI)
  show "length (applyMove 0 s) = length (gather s permU)"
    using assms by simp
  have "\<forall>i<54. applyMove 0 s ! i = gather s permU ! i"
    unfolding all_less_54_lits using assms
    by (simp add: applyMove_base cycle4_nth rotateFaceCW_cycle4 gather_def permU_def)
  then show "\<And>i. i < length (applyMove 0 s) \<Longrightarrow> applyMove 0 s ! i = gather s permU ! i"
    using assms by simp
qed

lemma applyMove_D_gather:
  assumes "length s = 54"
  shows "applyMove 3 s = gather s permD"
proof (rule nth_equalityI)
  show "length (applyMove 3 s) = length (gather s permD)"
    using assms by simp
  have "\<forall>i<54. applyMove 3 s ! i = gather s permD ! i"
    unfolding all_less_54_lits using assms
    by (simp add: applyMove_base cycle4_nth rotateFaceCW_cycle4 gather_def permD_def)
  then show "\<And>i. i < length (applyMove 3 s) \<Longrightarrow> applyMove 3 s ! i = gather s permD ! i"
    using assms by simp
qed

lemma applyMove_L_gather:
  assumes "length s = 54"
  shows "applyMove 6 s = gather s permL"
proof (rule nth_equalityI)
  show "length (applyMove 6 s) = length (gather s permL)"
    using assms by simp
  have "\<forall>i<54. applyMove 6 s ! i = gather s permL ! i"
    unfolding all_less_54_lits using assms
    by (simp add: applyMove_base cycle4_nth rotateFaceCW_cycle4 gather_def permL_def)
  then show "\<And>i. i < length (applyMove 6 s) \<Longrightarrow> applyMove 6 s ! i = gather s permL ! i"
    using assms by simp
qed

lemma applyMove_R_gather:
  assumes "length s = 54"
  shows "applyMove 9 s = gather s permR"
proof (rule nth_equalityI)
  show "length (applyMove 9 s) = length (gather s permR)"
    using assms by simp
  have "\<forall>i<54. applyMove 9 s ! i = gather s permR ! i"
    unfolding all_less_54_lits using assms
    by (simp add: applyMove_base cycle4_nth rotateFaceCW_cycle4 gather_def permR_def)
  then show "\<And>i. i < length (applyMove 9 s) \<Longrightarrow> applyMove 9 s ! i = gather s permR ! i"
    using assms by simp
qed

lemma applyMove_F_gather:
  assumes "length s = 54"
  shows "applyMove 12 s = gather s permF"
proof (rule nth_equalityI)
  show "length (applyMove 12 s) = length (gather s permF)"
    using assms by simp
  have "\<forall>i<54. applyMove 12 s ! i = gather s permF ! i"
    unfolding all_less_54_lits using assms
    by (simp add: applyMove_base cycle4_nth rotateFaceCW_cycle4 gather_def permF_def)
  then show "\<And>i. i < length (applyMove 12 s) \<Longrightarrow> applyMove 12 s ! i = gather s permF ! i"
    using assms by simp
qed

lemma applyMove_B_gather:
  assumes "length s = 54"
  shows "applyMove 15 s = gather s permB"
proof (rule nth_equalityI)
  show "length (applyMove 15 s) = length (gather s permB)"
    using assms by simp
  have "\<forall>i<54. applyMove 15 s ! i = gather s permB ! i"
    unfolding all_less_54_lits using assms
    by (simp add: applyMove_base cycle4_nth rotateFaceCW_cycle4 gather_def permB_def)
  then show "\<And>i. i < length (applyMove 15 s) \<Longrightarrow> applyMove 15 s ! i = gather s permB ! i"
    using assms by simp
qed

text \<open>The half and counter-clockwise turns are the clockwise turn twice and three times.\<close>

lemma permU_compose: "gather permU permU = permU2" "gather permU2 permU = permUp"
  by (simp_all add: gather_def permU_def permU2_def permUp_def)

lemma applyMove_U2_gather:
  assumes "length s = 54"
  shows "applyMove 2 s = gather s permU2"
  using assms perm_bounded
  by (simp add: applyMove_derived applyMove_U_gather gather_gather permU_compose)

lemma applyMove_Up_gather:
  assumes "length s = 54"
  shows "applyMove 1 s = gather s permUp"
  using assms perm_bounded
  by (simp add: applyMove_derived applyMove_U_gather gather_gather permU_compose)

lemma permD_compose: "gather permD permD = permD2" "gather permD2 permD = permDp"
  by (simp_all add: gather_def permD_def permD2_def permDp_def)

lemma applyMove_D2_gather:
  assumes "length s = 54"
  shows "applyMove 5 s = gather s permD2"
  using assms perm_bounded
  by (simp add: applyMove_derived applyMove_D_gather gather_gather permD_compose)

lemma applyMove_Dp_gather:
  assumes "length s = 54"
  shows "applyMove 4 s = gather s permDp"
  using assms perm_bounded
  by (simp add: applyMove_derived applyMove_D_gather gather_gather permD_compose)

lemma permL_compose: "gather permL permL = permL2" "gather permL2 permL = permLp"
  by (simp_all add: gather_def permL_def permL2_def permLp_def)

lemma applyMove_L2_gather:
  assumes "length s = 54"
  shows "applyMove 8 s = gather s permL2"
  using assms perm_bounded
  by (simp add: applyMove_derived applyMove_L_gather gather_gather permL_compose)

lemma applyMove_Lp_gather:
  assumes "length s = 54"
  shows "applyMove 7 s = gather s permLp"
  using assms perm_bounded
  by (simp add: applyMove_derived applyMove_L_gather gather_gather permL_compose)

lemma permR_compose: "gather permR permR = permR2" "gather permR2 permR = permRp"
  by (simp_all add: gather_def permR_def permR2_def permRp_def)

lemma applyMove_R2_gather:
  assumes "length s = 54"
  shows "applyMove 11 s = gather s permR2"
  using assms perm_bounded
  by (simp add: applyMove_derived applyMove_R_gather gather_gather permR_compose)

lemma applyMove_Rp_gather:
  assumes "length s = 54"
  shows "applyMove 10 s = gather s permRp"
  using assms perm_bounded
  by (simp add: applyMove_derived applyMove_R_gather gather_gather permR_compose)

lemma permF_compose: "gather permF permF = permF2" "gather permF2 permF = permFp"
  by (simp_all add: gather_def permF_def permF2_def permFp_def)

lemma applyMove_F2_gather:
  assumes "length s = 54"
  shows "applyMove 14 s = gather s permF2"
  using assms perm_bounded
  by (simp add: applyMove_derived applyMove_F_gather gather_gather permF_compose)

lemma applyMove_Fp_gather:
  assumes "length s = 54"
  shows "applyMove 13 s = gather s permFp"
  using assms perm_bounded
  by (simp add: applyMove_derived applyMove_F_gather gather_gather permF_compose)

lemma permB_compose: "gather permB permB = permB2" "gather permB2 permB = permBp"
  by (simp_all add: gather_def permB_def permB2_def permBp_def)

lemma applyMove_B2_gather:
  assumes "length s = 54"
  shows "applyMove 17 s = gather s permB2"
  using assms perm_bounded
  by (simp add: applyMove_derived applyMove_B_gather gather_gather permB_compose)

lemma applyMove_Bp_gather:
  assumes "length s = 54"
  shows "applyMove 16 s = gather s permBp"
  using assms perm_bounded
  by (simp add: applyMove_derived applyMove_B_gather gather_gather permB_compose)

lemma applyMove_Up_gather_Suc:
  assumes "length s = 54"
  shows "applyMove (Suc 0) s = gather s permUp"
  using applyMove_Up_gather[OF assms] by simp

lemmas applyMove_gather = applyMove_Up_gather_Suc
  applyMove_U_gather applyMove_Up_gather applyMove_U2_gather applyMove_D_gather
  applyMove_Dp_gather applyMove_D2_gather applyMove_L_gather applyMove_Lp_gather
  applyMove_L2_gather applyMove_R_gather applyMove_Rp_gather applyMove_R2_gather
  applyMove_F_gather applyMove_Fp_gather applyMove_F2_gather applyMove_B_gather
  applyMove_Bp_gather applyMove_B2_gather

lemma applyMove_movePerm:
  assumes "length s = 54" and "m < 18"
  shows "applyMove m s = gather s (movePerm m)"
  using assms by (cases m rule: move_cases) (simp_all add: movePerm_def applyMove_gather)

lemma length_movePerm: "m < 18 \<Longrightarrow> length (movePerm m) = 54"
  by (cases m rule: move_cases) (simp_all add: movePerm_def)

lemma applyMove_nth:
  assumes "length s = 54" and "m < 18" and "k < 54"
  shows "applyMove m s ! k = s ! (movePerm m ! k)"
  using assms by (simp add: applyMove_movePerm nth_gather length_movePerm)

section \<open>Moves and their inverses\<close>

text \<open>A counter-clockwise turn followed by the clockwise turn restores every facelet.\<close>

lemma gather_inverse:
  assumes "length s = 54" "length p = 54" "length q = 54" "list_all (\<lambda>k. k < 54) q"
    and inv: "\<forall>i<54. p ! (q ! i) = i"
  shows "gather (gather s p) q = s"
proof (rule nth_equalityI)
  show "length (gather (gather s p) q) = length s"
    using assms by simp
  fix i
  assume "i < length (gather (gather s p) q)"
  then have i: "i < 54" using assms by simp
  then have "q ! i < 54" using assms by (simp add: list_all_length)
  then show "gather (gather s p) q ! i = s ! i"
    using i inv assms by (simp add: nth_gather)
qed

lemma permU_inverse: "\<forall>i<54. permU ! (permUp ! i) = i"
  unfolding all_less_54_lits
  by (simp add: permU_def permUp_def)

lemma permD_inverse: "\<forall>i<54. permD ! (permDp ! i) = i"
  unfolding all_less_54_lits
  by (simp add: permD_def permDp_def)

lemma permL_inverse: "\<forall>i<54. permL ! (permLp ! i) = i"
  unfolding all_less_54_lits
  by (simp add: permL_def permLp_def)

lemma permR_inverse: "\<forall>i<54. permR ! (permRp ! i) = i"
  unfolding all_less_54_lits
  by (simp add: permR_def permRp_def)

lemma permF_inverse: "\<forall>i<54. permF ! (permFp ! i) = i"
  unfolding all_less_54_lits
  by (simp add: permF_def permFp_def)

lemma permB_inverse: "\<forall>i<54. permB ! (permBp ! i) = i"
  unfolding all_less_54_lits
  by (simp add: permB_def permBp_def)

lemma cw_then_ccw:
  assumes "length s = 54" and "b \<in> {0, 3, 6, 9, 12, 15}"
  shows "applyMove (b + 1) (applyMove b s) = s"
proof -
  from assms(2) consider "b = 0" | "b = 3" | "b = 6" | "b = 9" | "b = 12" | "b = 15"
    by auto
  then show ?thesis
    using assms(1) perm_bounded
    by cases
      (simp_all add: applyMove_gather gather_inverse permU_inverse permD_inverse permL_inverse
        permR_inverse permF_inverse permB_inverse)
qed

lemma quarter_turn_order_4:
  assumes "length s = 54" and "b \<in> {0, 3, 6, 9, 12, 15}"
  shows "applyMove b (applyMove b (applyMove b (applyMove b s))) = s"
  using cw_then_ccw[OF assms] assms(2) by (auto simp: applyMove_derived)

lemma applyMove_inverseMove_id:
  assumes len: "length s = 54"
  shows "applyMove (inverseMove m) (applyMove m s) = s"
proof -
  show ?thesis
  proof (cases m rule: move_cases)
    case 19
    then have "18 \<le> inverseMove m"
      by (simp add: inverseMove_def Let_def) presburger
    with 19 show ?thesis by (simp add: applyMove_default)
  qed (simp_all add: inverseMove_def applyMove_derived quarter_turn_order_4[OF len])
qed

lemma inverseMove_kinds:
  "inverseMove (3 * f) = 3 * f + 1" "inverseMove (3 * f + 1) = 3 * f"
  "inverseMove (3 * f + 2) = 3 * f + 2"
proof -
  have "(3 * f) mod 3 = 0" "(3 * f) div 3 = f" "(3 * f + 1) mod 3 = 1" "(3 * f + 1) div 3 = f"
    "(3 * f + 2) mod 3 = 2" "(3 * f + 2) div 3 = f"
    by presburger+
  then show "inverseMove (3 * f) = 3 * f + 1" "inverseMove (3 * f + 1) = 3 * f"
    "inverseMove (3 * f + 2) = 3 * f + 2"
    unfolding inverseMove_def Let_def by (simp_all only: mult.commute[of f 3]) simp_all
qed

text \<open>
  Claim C5. For every move \<open>m\<close> and every 54-facelet state, applying \<open>m\<close> and then
  \<open>inverseMove m\<close> gives the facelet array back. \<open>inverseMove\<close> sends the clockwise
  quarter turn \<open>3 * f\<close> of face \<open>f\<close> to the counter-clockwise turn \<open>3 * f + 1\<close> of that
  face and back, and the half turn \<open>3 * f + 2\<close> to itself.
\<close>

theorem move_then_inverse_is_identity:
  "length s = 54 \<Longrightarrow>
   applyMove (inverseMove m) (applyMove m s) = s \<and>
   inverseMove (3 * f) = 3 * f + 1 \<and>
   inverseMove (3 * f + 1) = 3 * f \<and>
   inverseMove (3 * f + 2) = 3 * f + 2"
  using applyMove_inverseMove_id[of s m] inverseMove_kinds[of f] by blast

theorem move_then_inverse_is_identity_witness:
  "length reset = 54 \<and>
   applyMove (inverseMove Move_R) (applyMove Move_R reset) = reset \<and>
   inverseMove Move_R = Move_Rp \<and> inverseMove Move_Rp = Move_R \<and> inverseMove Move_R2 = Move_R2"
proof -
  have len: "length reset = 54"
    by (simp add: reset_def upt_lits)
  show ?thesis
    using len move_then_inverse_is_identity[OF len, of 9 3] by auto
qed


section \<open>The cubie queries under a move\<close>

lemma getCornerPermutation_alt:
  "getCornerPermutation s pos =
     cornerMatch (s ! (cornerFacelets ! pos ! 0)) (s ! (cornerFacelets ! pos ! 1))
       (s ! (cornerFacelets ! pos ! 2))"
  by (simp add: getCornerPermutation_def cornerMatch_def Let_def)

lemma getCornerOrientation_alt:
  "getCornerOrientation s pos =
     cornerTwist (s ! (cornerFacelets ! pos ! 0)) (s ! (cornerFacelets ! pos ! 1))"
  by (simp add: getCornerOrientation_def cornerTwist_def Let_def)

lemma getEdgePermutation_alt:
  "getEdgePermutation s pos =
     edgeMatch (s ! (edgeFacelets ! pos ! 0)) (s ! (edgeFacelets ! pos ! 1))"
  by (simp add: getEdgePermutation_def edgeMatch_def Let_def)

lemma getEdgeOrientation_alt:
  "getEdgeOrientation s pos =
     edgeFlip (s ! (edgeFacelets ! pos ! 0)) (s ! (edgeFacelets ! pos ! 1))"
  by (simp add: getEdgeOrientation_def edgeFlip_def getEdgePermutation_alt Let_def)

lemma cornerMatch_rot: "cornerMatch c2 c0 c1 = cornerMatch c0 c1 c2"
proof -
  have "(\<lambda>c. ((c2 = cornerColors ! c ! 0 \<or> c2 = cornerColors ! c ! 1 \<or> c2 = cornerColors ! c ! 2) \<and>
               (c0 = cornerColors ! c ! 0 \<or> c0 = cornerColors ! c ! 1 \<or> c0 = cornerColors ! c ! 2) \<and>
               (c1 = cornerColors ! c ! 0 \<or> c1 = cornerColors ! c ! 1 \<or> c1 = cornerColors ! c ! 2)) \<and>
              (c2 \<noteq> c0 \<and> c0 \<noteq> c1 \<and> c2 \<noteq> c1))
      = (\<lambda>c. ((c0 = cornerColors ! c ! 0 \<or> c0 = cornerColors ! c ! 1 \<or> c0 = cornerColors ! c ! 2) \<and>
               (c1 = cornerColors ! c ! 0 \<or> c1 = cornerColors ! c ! 1 \<or> c1 = cornerColors ! c ! 2) \<and>
               (c2 = cornerColors ! c ! 0 \<or> c2 = cornerColors ! c ! 1 \<or> c2 = cornerColors ! c ! 2)) \<and>
              (c0 \<noteq> c1 \<and> c1 \<noteq> c2 \<and> c0 \<noteq> c2))"
    by (rule ext) blast
  then show ?thesis
    unfolding cornerMatch_def by simp
qed

lemma cornerMatch_rot2: "cornerMatch c1 c2 c0 = cornerMatch c0 c1 c2"
  using cornerMatch_rot[of c1 c2 c0] cornerMatch_rot[of c2 c0 c1] by simp

lemma edgeMatch_swap: "edgeMatch c1 c0 = edgeMatch c0 c1"
proof -
  have "(\<lambda>e. (c1 = edgeColors ! e ! 0 \<and> c0 = edgeColors ! e ! 1) \<or>
              (c1 = edgeColors ! e ! 1 \<and> c0 = edgeColors ! e ! 0))
      = (\<lambda>e. (c0 = edgeColors ! e ! 0 \<and> c1 = edgeColors ! e ! 1) \<or>
              (c0 = edgeColors ! e ! 1 \<and> c1 = edgeColors ! e ! 0))"
    by (rule ext) blast
  then show ?thesis
    unfolding edgeMatch_def by simp
qed

lemma find_nonneg_iff:
  "0 \<le> (case find P xs of Some c \<Rightarrow> int c | None \<Rightarrow> - 1) \<longleftrightarrow> (\<exists>x\<in>set xs. P x)"
proof (cases "find P xs")
  case None
  then have "\<not> (\<exists>x\<in>set xs. P x)" by (simp add: find_None_iff)
  with None show ?thesis by simp
next
  case (Some a)
  then have "P a" "a \<in> set xs" by (auto simp: find_Some_iff)
  with Some show ?thesis by auto
qed

lemma cornerMatch_nonneg_iff:
  "0 \<le> cornerMatch c0 c1 c2 \<longleftrightarrow>
     (\<exists>c\<in>set [0..<8].
        ((c0 = cornerColors ! c ! 0 \<or> c0 = cornerColors ! c ! 1 \<or> c0 = cornerColors ! c ! 2) \<and>
         (c1 = cornerColors ! c ! 0 \<or> c1 = cornerColors ! c ! 1 \<or> c1 = cornerColors ! c ! 2) \<and>
         (c2 = cornerColors ! c ! 0 \<or> c2 = cornerColors ! c ! 1 \<or> c2 = cornerColors ! c ! 2)) \<and>
        (c0 \<noteq> c1 \<and> c1 \<noteq> c2 \<and> c0 \<noteq> c2))"
  unfolding cornerMatch_def by (rule find_nonneg_iff)

text \<open>A matched corner shows exactly one of white and yellow, so a turn of the
  three facelets adds to the orientation.\<close>

lemma cornerMatch_one_ud:
  assumes "0 \<le> cornerMatch c0 c1 c2"
  shows "cornerTwist c2 c0 = (cornerTwist c0 c1 + 1) mod 3"
    and "cornerTwist c1 c2 = (cornerTwist c0 c1 + 2) mod 3"
  using assms unfolding cornerMatch_nonneg_iff upt_lits
  by (auto simp: cornerTwist_def cornerColors_def)

lemma edgeFlip_swap:
  assumes "0 \<le> edgeMatch c0 c1"
  shows "edgeFlip c1 c0 = 1 - edgeFlip c0 c1"
  using assms
  by (cases c0; cases c1;
      simp add: edgeMatch_def edgeFlip_def edgeColors_def upt_lits)

lemma upt_3: "[0..<3] = [0, 1, 2]" "[0..<2] = [0, 1]"
  by code_simp+

lemma upt_18: "[0..<18] = [0, 1, 2, 3, 4, 5, 6, 7, 8, 9, 10, 11, 12, 13, 14, 15, 16, 17]"
  by code_simp

lemma corner_facelets_moved:
  "list_all (\<lambda>m. list_all (\<lambda>i. list_all (\<lambda>k.
      movePerm m ! (cornerFacelets ! i ! k) =
        cornerFacelets ! (cPosTab ! m ! i) ! ((k + 3 - cOriTab ! m ! i) mod 3))
     [0..<3]) [0..<8]) [0..<18]"
  by code_simp

lemma edge_facelets_moved:
  "list_all (\<lambda>m. list_all (\<lambda>i. list_all (\<lambda>k.
      movePerm m ! (edgeFacelets ! i ! k) =
        edgeFacelets ! (ePosTab ! m ! i) ! ((k + eOriTab ! m ! i) mod 2))
     [0..<2]) [0..<12]) [0..<18]"
  by code_simp

lemma corner_facelets_bounded:
  "list_all (\<lambda>i. list_all (\<lambda>k. cornerFacelets ! i ! k < 54) [0..<3]) [0..<8]"
  by (simp add: cornerFacelets_def upt_lits upt_3)

lemma edge_facelets_bounded:
  "list_all (\<lambda>i. list_all (\<lambda>k. edgeFacelets ! i ! k < 54) [0..<2]) [0..<12]"
  by (simp add: edgeFacelets_def upt_lits upt_3)

lemma cornerTab_bounded:
  "list_all (\<lambda>m. list_all (\<lambda>i. cPosTab ! m ! i < 8 \<and> cOriTab ! m ! i < 3) [0..<8]) [0..<18]"
  by (simp add: cPosTab_def cOriTab_def upt_lits upt_18)

lemma edgeTab_bounded:
  "list_all (\<lambda>m. list_all (\<lambda>i. ePosTab ! m ! i < 12 \<and> eOriTab ! m ! i < 2) [0..<12]) [0..<18]"
  by (simp add: ePosTab_def eOriTab_def upt_lits upt_18)

lemma corner_facelet_moved:
  assumes "m < 18" "i < 8" "k < 3"
  shows "cornerFacelets ! i ! k < 54" "cPosTab ! m ! i < 8" "cOriTab ! m ! i < 3"
    "movePerm m ! (cornerFacelets ! i ! k) =
        cornerFacelets ! (cPosTab ! m ! i) ! ((k + 3 - cOriTab ! m ! i) mod 3)"
  using corner_facelets_moved corner_facelets_bounded cornerTab_bounded assms
  unfolding list_all_iff by auto

lemma edge_facelet_moved:
  assumes "m < 18" "i < 12" "k < 2"
  shows "edgeFacelets ! i ! k < 54" "ePosTab ! m ! i < 12" "eOriTab ! m ! i < 2"
    "movePerm m ! (edgeFacelets ! i ! k) =
        edgeFacelets ! (ePosTab ! m ! i) ! ((k + eOriTab ! m ! i) mod 2)"
  using edge_facelets_moved edge_facelets_bounded edgeTab_bounded assms
  unfolding list_all_iff by auto

lemma corner_colour_moved:
  assumes "length s = 54" "m < 18" "i < 8" "k < 3"
  shows "applyMove m s ! (cornerFacelets ! i ! k) =
     s ! (cornerFacelets ! (cPosTab ! m ! i) ! ((k + 3 - cOriTab ! m ! i) mod 3))"
  using assms corner_facelet_moved[OF assms(2-4)] by (simp add: applyMove_nth)

lemma edge_colour_moved:
  assumes "length s = 54" "m < 18" "i < 12" "k < 2"
  shows "applyMove m s ! (edgeFacelets ! i ! k) =
     s ! (edgeFacelets ! (ePosTab ! m ! i) ! ((k + eOriTab ! m ! i) mod 2))"
  using assms edge_facelet_moved[OF assms(2-4)] by (simp add: applyMove_nth)

lemma lt3_cases: "t < 3 \<Longrightarrow> t = 0 \<or> t = 1 \<or> t = (2::nat)"
  by auto

lemma getCornerPermutation_applyMove:
  assumes "length s = 54" "m < 18" "i < 8"
  shows "getCornerPermutation (applyMove m s) i = getCornerPermutation s (cPosTab ! m ! i)"
proof -
  note c = corner_colour_moved[OF assms] corner_facelet_moved(3)[OF assms(2,3)]
  have t: "cOriTab ! m ! i < 3" using c(2)[of 0] by simp
  show ?thesis
    using lt3_cases[OF t]
    by (auto simp: getCornerPermutation_alt c(1) cornerMatch_rot cornerMatch_rot2)
qed

lemma getCornerOrientation_applyMove:
  assumes "length s = 54" "m < 18" "i < 8" "0 \<le> getCornerPermutation s (cPosTab ! m ! i)"
  shows "getCornerOrientation (applyMove m s) i =
     (getCornerOrientation s (cPosTab ! m ! i) + int (cOriTab ! m ! i)) mod 3"
proof -
  note c = corner_colour_moved[OF assms(1-3)] corner_facelet_moved(3)[OF assms(2,3)]
  have t: "cOriTab ! m ! i < 3" using c(2)[of 0] by simp
  have r: "0 \<le> getCornerOrientation s j" "getCornerOrientation s j < 3" for j
    by (simp_all add: getCornerOrientation_def Let_def)
  show ?thesis
    using lt3_cases[OF t] assms(4) r[of "cPosTab ! m ! i"]
    by (auto simp: getCornerOrientation_alt getCornerPermutation_alt c(1) cornerMatch_one_ud)
qed

lemma getEdgePermutation_applyMove:
  assumes "length s = 54" "m < 18" "i < 12"
  shows "getEdgePermutation (applyMove m s) i = getEdgePermutation s (ePosTab ! m ! i)"
proof -
  note c = edge_colour_moved[OF assms] edge_facelet_moved(3)[OF assms(2,3)]
  have "eOriTab ! m ! i < 2" using c(2)[of 0] by simp
  then have "eOriTab ! m ! i = 0 \<or> eOriTab ! m ! i = 1" by auto
  then show ?thesis
    by (auto simp: getEdgePermutation_alt c(1) edgeMatch_swap)
qed

lemma getEdgeOrientation_applyMove:
  assumes "length s = 54" "m < 18" "i < 12" "0 \<le> getEdgePermutation s (ePosTab ! m ! i)"
  shows "getEdgeOrientation (applyMove m s) i =
     (if eOriTab ! m ! i = 0 then getEdgeOrientation s (ePosTab ! m ! i)
      else 1 - getEdgeOrientation s (ePosTab ! m ! i))"
proof -
  note c = edge_colour_moved[OF assms(1-3)] edge_facelet_moved(3)[OF assms(2,3)]
  have "eOriTab ! m ! i < 2" using c(2)[of 0] by simp
  then have "eOriTab ! m ! i = 0 \<or> eOriTab ! m ! i = 1" by auto
  then show ?thesis
    using assms(4)
    by (auto simp: getEdgeOrientation_alt getEdgePermutation_alt c(1) edgeFlip_swap)
qed

lemma length_reset [simp]: "length reset = 54"
  by (simp add: reset_def upt_lits)

lemma reset_nth: "n < 54 \<Longrightarrow> reset ! n = kFaceColor ! (n div 9)"
proof -
  have "\<forall>n<54. reset ! n = kFaceColor ! (n div 9)"
    unfolding all_less_54_lits
    by (simp add: reset_def upt_lits kFaceColor_def nth_append)
  then show "n < 54 \<Longrightarrow> reset ! n = kFaceColor ! (n div 9)" by simp
qed

text \<open>On the reset cube every position holds its own cubie, not turned.\<close>

lemma reset_cubies:
  "list_all (\<lambda>j. getCornerPermutation reset j = int j \<and> getCornerOrientation reset j = 0) [0..<8]"
  "list_all (\<lambda>j. getEdgePermutation reset j = int j \<and> getEdgeOrientation reset j = 0) [0..<12]"
  unfolding upt_lits
  by (simp_all add: getCornerPermutation_def getCornerOrientation_def getEdgePermutation_def
      getEdgeOrientation_def cornerFacelets_def edgeFacelets_def cornerColors_def edgeColors_def
      reset_nth kFaceColor_def upt_lits Let_def)

lemma reset_corner:
  assumes "j < 8"
  shows "getCornerPermutation reset j = int j" "getCornerOrientation reset j = 0"
  using reset_cubies(1) assms unfolding list_all_iff by auto

lemma reset_edge:
  assumes "j < 12"
  shows "getEdgePermutation reset j = int j" "getEdgeOrientation reset j = 0"
  using reset_cubies(2) assms unfolding list_all_iff by auto

lemma tab_lengths:
  assumes "m < 18"
  shows "length (cPosTab ! m) = 8" "length (cOriTab ! m) = 8"
    "length (ePosTab ! m) = 12" "length (eOriTab ! m) = 12"
proof -
  have "list_all (\<lambda>m. length (cPosTab ! m) = 8 \<and> length (cOriTab ! m) = 8 \<and>
      length (ePosTab ! m) = 12 \<and> length (eOriTab ! m) = 12) [0..<18]"
    by (simp add: upt_18 cPosTab_def cOriTab_def ePosTab_def eOriTab_def)
  with assms show "length (cPosTab ! m) = 8" "length (cOriTab ! m) = 8"
    "length (ePosTab ! m) = 12" "length (eOriTab ! m) = 12"
    unfolding list_all_iff by auto
qed

lemma u8_small: "0 \<le> x \<Longrightarrow> x < 256 \<Longrightarrow> u8 x = nat x"
  by (simp add: u8_def)

lemma initMoveEffects_rows:
  assumes "m < 18"
  shows "cPos (initMoveEffects t) ! m = cPosTab ! m"
    and "cOri (initMoveEffects t) ! m = cOriTab ! m"
    and "ePos (initMoveEffects t) ! m = ePosTab ! m"
    and "eOri (initMoveEffects t) ! m = eOriTab ! m"
proof -
  have c: "u8 (getCornerPermutation (applyMove m reset) i) = cPosTab ! m ! i"
    "u8 (getCornerOrientation (applyMove m reset) i) = cOriTab ! m ! i" if "i < 8" for i
    using that assms corner_facelet_moved(2,3)[OF assms that, of 0]
    by (simp_all add: getCornerPermutation_applyMove getCornerOrientation_applyMove
        reset_corner u8_small)
  have e: "u8 (getEdgePermutation (applyMove m reset) i) = ePosTab ! m ! i"
    "u8 (getEdgeOrientation (applyMove m reset) i) = eOriTab ! m ! i" if "i < 12" for i
    using that assms edge_facelet_moved(2,3)[OF assms that, of 0]
    by (auto simp: getEdgePermutation_applyMove getEdgeOrientation_applyMove
        reset_edge u8_small)
  show "cPos (initMoveEffects t) ! m = cPosTab ! m"
    using assms tab_lengths(1)[OF assms]
    by (auto simp: initMoveEffects_def kNumMoves_def toCubie_def c intro!: nth_equalityI)
  show "cOri (initMoveEffects t) ! m = cOriTab ! m"
    using assms tab_lengths(2)[OF assms]
    by (auto simp: initMoveEffects_def kNumMoves_def toCubie_def c intro!: nth_equalityI)
  show "ePos (initMoveEffects t) ! m = ePosTab ! m"
    using assms tab_lengths(3)[OF assms]
    by (auto simp: initMoveEffects_def kNumMoves_def toCubie_def e intro!: nth_equalityI)
  show "eOri (initMoveEffects t) ! m = eOriTab ! m"
    using assms tab_lengths(4)[OF assms]
    by (auto simp: initMoveEffects_def kNumMoves_def toCubie_def e intro!: nth_equalityI)
qed

lemma orientation_ranges:
  "0 \<le> getCornerOrientation s j" "getCornerOrientation s j < 3"
  "0 \<le> getEdgeOrientation s j" "getEdgeOrientation s j < 2"
  by (simp_all add: getCornerOrientation_def getEdgeOrientation_def Let_def)

lemma xor_flip: "x = 0 \<or> x = 1 \<Longrightarrow> nat (1 - x) = nat x XOR 1" for x :: int
  by auto

lemma toCubie_applyMove:
  assumes len: "length s = 54" and m: "m < 18"
    and cvalid: "list_all (\<lambda>j. 0 \<le> getCornerPermutation s j) [0..<8]"
    and evalid: "list_all (\<lambda>j. 0 \<le> getEdgePermutation s j) [0..<12]"
  shows "toCubie (applyMove m s) = Tables_applyMove (initMoveEffects t) (toCubie s) m"
proof -
  have cv: "0 \<le> getCornerPermutation s j" if "j < 8" for j
    using cvalid that by (simp add: list_all_iff)
  have ev: "0 \<le> getEdgePermutation s j" if "j < 12" for j
    using evalid that by (simp add: list_all_iff)
  have cp_eq: "u8 (getCornerPermutation (applyMove m s) i)
      = cp (toCubie s) ! (cPosTab ! m ! i)" if "i < 8" for i
    using that corner_facelet_moved(2)[OF m that, of 0]
    by (simp add: getCornerPermutation_applyMove[OF len m] toCubie_def)
  have co_eq: "u8 (getCornerOrientation (applyMove m s) i)
      = (co (toCubie s) ! (cPosTab ! m ! i) + cOriTab ! m ! i) mod 3" if "i < 8" for i
  proof -
    let ?j = "cPosTab ! m ! i"
    have j: "?j < 8" using corner_facelet_moved(2)[OF m that, of 0] by simp
    have "getCornerOrientation (applyMove m s) i
        = (getCornerOrientation s ?j + int (cOriTab ! m ! i)) mod 3"
      using getCornerOrientation_applyMove[OF len m that cv[OF j]] .
    moreover have "co (toCubie s) ! ?j = nat (getCornerOrientation s ?j)"
      using j orientation_ranges(1,2)[of s ?j] by (simp add: toCubie_def u8_small)
    ultimately show ?thesis
      using orientation_ranges(1,2)[of s ?j]
      by (simp add: u8_small nat_mod_distrib nat_add_distrib)
  qed
  have ep_eq: "u8 (getEdgePermutation (applyMove m s) i)
      = ep (toCubie s) ! (ePosTab ! m ! i)" if "i < 12" for i
    using that edge_facelet_moved(2)[OF m that, of 0]
    by (simp add: getEdgePermutation_applyMove[OF len m] toCubie_def)
  have eo_eq: "u8 (getEdgeOrientation (applyMove m s) i)
      = (eo (toCubie s) ! (ePosTab ! m ! i)) XOR (eOriTab ! m ! i)" if "i < 12" for i
  proof -
    let ?j = "ePosTab ! m ! i"
    have j: "?j < 12" and t: "eOriTab ! m ! i < 2"
      using edge_facelet_moved(2,3)[OF m that, of 0] by simp_all
    have r: "getEdgeOrientation s ?j = 0 \<or> getEdgeOrientation s ?j = 1"
      using orientation_ranges(3,4)[of s ?j] by auto
    have "eo (toCubie s) ! ?j = nat (getEdgeOrientation s ?j)"
      using j r by (auto simp: toCubie_def u8_small)
    moreover from t have "eOriTab ! m ! i = 0 \<or> eOriTab ! m ! i = 1" by auto
    ultimately show ?thesis
      using r xor_flip[OF r]
      by (auto simp: getEdgeOrientation_applyMove[OF len m that ev[OF j]] u8_small)
  qed
  show ?thesis
    using m
    by (simp add: toCubie_def[of "applyMove m s"] Tables_applyMove_def initMoveEffects_rows
        cp_eq co_eq ep_eq eo_eq)
qed

section \<open>The piece-level move rule against the facelet engine\<close>

text \<open>
  Claim C2, as amended. For every 54-facelet state in which every corner position and
  every edge position holds a cubie (no permutation query returns \<open>-1\<close>; every solvable
  state is one) and every move \<open>m\<close> in \<open>0..17\<close>, converting to the cubie representation and
  applying \<open>m\<close> by the piece-level rule of \<open>Tables_applyMove\<close>, with the move records
  \<open>initMoveEffects\<close> reads from the reset cube, gives the same cubie state as applying
  \<open>m\<close> with the facelet engine and converting.
\<close>

theorem cubie_move_refines_facelet_move:
  "length s = 54 \<Longrightarrow> m < 18 \<Longrightarrow>
   list_all (\<lambda>j. 0 \<le> getCornerPermutation s j) [0..<8] \<Longrightarrow>
   list_all (\<lambda>j. 0 \<le> getEdgePermutation s j) [0..<12] \<Longrightarrow>
   toCubie (applyMove m s) = Tables_applyMove (initMoveEffects t) (toCubie s) m"
  by (rule toCubie_applyMove)

theorem cubie_move_refines_facelet_move_witness:
  "length reset = 54 \<and>
   list_all (\<lambda>j. 0 \<le> getCornerPermutation reset j) [0..<8] \<and>
   list_all (\<lambda>j. 0 \<le> getEdgePermutation reset j) [0..<12] \<and>
   toCubie (applyMove Move_F reset) =
     Tables_applyMove (initMoveEffects g_tables0) (toCubie reset) Move_F"
proof -
  have c: "list_all (\<lambda>j. 0 \<le> getCornerPermutation reset j) [0..<8]"
    using reset_corner(1) by (simp add: list_all_iff)
  have e: "list_all (\<lambda>j. 0 \<le> getEdgePermutation reset j) [0..<12]"
    using reset_edge(1) by (simp add: list_all_iff)
  show ?thesis
    using c e cubie_move_refines_facelet_move[OF length_reset _ c e, of 12 g_tables0]
    by simp
qed

text \<open>
  The claim as stated, for every cube state, fails on the state of the repository's own
  test of an unsolvable cube (the reset cube with the facelets U8 and F0 exchanged) and
  the move R: the facelet engine leaves orientation 2 at the corner position UBR, the
  piece-level rule computes 0.
\<close>

theorem cubie_move_counterexample:
  "toCubie (applyMove Move_R (reset[8 := Red, 36 := White])) \<noteq>
   Tables_applyMove (initMoveEffects g_tables0) (toCubie (reset[8 := Red, 36 := White])) Move_R"
proof
  let ?s = "reset[8 := Red, 36 := White]"
  assume eq: "toCubie (applyMove Move_R ?s) =
    Tables_applyMove (initMoveEffects g_tables0) (toCubie ?s) Move_R"
  have len: "length ?s = 54" by simp
  have facelets: "applyMove 9 ?s ! 2 = Red" "applyMove 9 ?s ! 45 = Red" "?s ! 8 = Red" "?s ! 27 = Blue"
    by (simp_all add: applyMove_nth[OF len] movePerm_def permR_def reset_nth kFaceColor_def)
  have lhs: "co (toCubie (applyMove Move_R ?s)) ! 3 = 2"
    using facelets
    by (simp add: toCubie_def upt_lits getCornerOrientation_def cornerFacelets_def u8_def Let_def)
  have rhs: "co (Tables_applyMove (initMoveEffects g_tables0) (toCubie ?s) Move_R) ! 3 = 0"
  proof -
    have "co (Tables_applyMove (initMoveEffects g_tables0) (toCubie ?s) Move_R) ! 3
        = (co (toCubie ?s) ! 0 + 1) mod 3"
      by (simp add: Tables_applyMove_def upt_lits initMoveEffects_rows)
        (simp add: cPosTab_def cOriTab_def)
    also have "co (toCubie ?s) ! 0 = 2"
      using facelets
      by (simp add: toCubie_def upt_lits)
        (simp add: getCornerOrientation_def cornerFacelets_def u8_def Let_def)
    finally show ?thesis by simp
  qed
  from eq lhs rhs show False by simp
qed

section \<open>The coordinate codec\<close>

text \<open>
  Claim C4 (encoding the decoder's output returns the coordinate) fails for the slice
  coordinate. \<open>sliceFromCoord\<close> decodes 1 (as it does every value below 8) to the same
  pattern as 0, the slice edges in the positions 8 to 11, which \<open>sliceCoord\<close> encodes as 0.
  \<open>sliceCoord\<close> is no ranking of the 495 patterns either: with the slice edges in the
  positions 0 to 3 it returns 792, beyond the range \<open>0..494\<close> its comment and \<open>kSLICE\<close>
  give.
\<close>

theorem slice_roundtrip_fails:
  "sliceFromCoord 1 = sliceFromCoord 0 \<and>
   sliceCoord (sliceFromCoord 1) = 0 \<and>
   sliceCoord [8, 9, 10, 11, 4, 5, 6, 7, 0, 1, 2, 3] = 792"
  by code_simp

section \<open>The phase-2 moves and the subgroup G1\<close>

lemma upt_7_11: "[0..<7] = [0, 1, 2, 3, 4, 5, 6]" "[0..<11] = [0, 1, 2, 3, 4, 5, 6, 7, 8, 9, 10]"
  "[0..<4] = [0, 1, 2, 3]"
  by code_simp+

lemma cornerOriCoord_zero_iff:
  "cornerOriCoord xs = 0 \<longleftrightarrow> list_all (\<lambda>i. xs ! i mod 3 = 0) [0..<7]"
  by (simp add: cornerOriCoord_def upt_7_11)

lemma edgeOriCoord_zero_iff:
  "edgeOriCoord xs = 0 \<longleftrightarrow> list_all (\<lambda>i. xs ! i AND 1 = 0) [0..<11]"
  by (simp add: edgeOriCoord_def upt_7_11)

text \<open>The loop of \<open>sliceCoord\<close> from a given state on.\<close>

lemma sliceCoord_loop_mono:
  "c \<le> fst (foldl (\<lambda>(coord, k) i.
                   if xs ! i \<ge> 8 then (coord, k - 1)
                   else if k > 0 then (coord + kBinom i (nat k), k)
                   else (coord, k)) (c, k :: int) js)"
proof (induction js arbitrary: c k)
  case Nil
  then show ?case by simp
next
  case (Cons j js)
  show ?case
    using Cons.IH[of c "k - 1"] Cons.IH[of "c + kBinom j (nat k)" k] Cons.IH[of c k]
    by auto
qed

lemma sliceCoord_loop_done:
  "k \<le> 0 \<Longrightarrow> fst (foldl (\<lambda>(coord, k) i.
                   if xs ! i \<ge> 8 then (coord, k - 1)
                   else if k > 0 then (coord + kBinom i (nat k), k)
                   else (coord, k)) (c, k :: int) js) = c"
proof (induction js arbitrary: c k)
  case Nil
  then show ?case by simp
next
  case (Cons j js)
  show ?case
    using Cons.IH[of "k - 1" c] Cons.IH[of k c] Cons.prems
    by auto
qed

lemma kBinom_values: "kBinom 11 4 = 330" "kBinom 10 3 = 120" "kBinom 9 2 = 36" "kBinom 8 1 = 8"
  "kBinom 8 (Suc 0) = 8"
  by code_simp+

lemma sliceCoord_zero_iff:
  "sliceCoord xs = 0 \<longleftrightarrow> xs ! 8 \<ge> 8 \<and> xs ! 9 \<ge> 8 \<and> xs ! 10 \<ge> 8 \<and> xs ! 11 \<ge> 8"
proof -
  let ?step = "\<lambda>(coord, k) i.
                   if xs ! i \<ge> 8 then (coord, k - 1)
                   else if k > 0 then (coord + kBinom i (nat k), k)
                   else (coord, k :: int)"
  have split: "sliceCoord xs = fst (foldl ?step (foldl ?step (0, 4) [11, 10, 9, 8]) [7, 6, 5, 4, 3, 2, 1, 0])"
    by (simp add: sliceCoord_def upt_lits)
  show ?thesis
  proof (cases "xs ! 8 \<ge> 8 \<and> xs ! 9 \<ge> 8 \<and> xs ! 10 \<ge> 8 \<and> xs ! 11 \<ge> 8")
    case True
    then have "foldl ?step (0, 4) [11, 10, 9, 8] = (0, 0)" by simp
    with True show ?thesis
      unfolding split using sliceCoord_loop_done[of 0 xs 0] by simp
  next
    case False
    then have "0 < fst (foldl ?step (0, 4) [11, 10, 9, 8])"
      by (auto simp: kBinom_values)
    moreover have "fst (foldl ?step (0, 4) [11, 10, 9, 8])
        \<le> fst (foldl ?step (foldl ?step (0, 4) [11, 10, 9, 8]) [7, 6, 5, 4, 3, 2, 1, 0])"
      using sliceCoord_loop_mono[of "fst (foldl ?step (0, 4) [11, 10, 9, 8])" xs
          "snd (foldl ?step (0, 4) [11, 10, 9, 8])"]
      by simp
    ultimately show ?thesis
      using False unfolding split by linarith
  qed
qed


lemma phase2_tabs:
  "list_all (\<lambda>m. cOriTab ! m = replicate 8 0 \<and> eOriTab ! m = replicate 12 0 \<and>
      list_all (\<lambda>i. ePosTab ! m ! i \<in> set [8, 9, 10, 11]) [8, 9, 10, 11]) kPhase2Moves"
  by code_simp

lemma list_all_nth8:
  "length xs = 8 \<Longrightarrow> list_all P xs = list_all (\<lambda>i. P (xs ! i)) [0..<8]"
  by (simp add: list_all_length list_all_iff)

lemma phase2_keeps_G1:
  assumes len: "length (co cc) = 8" "length (eo cc) = 12"
    and g1: "cornerOriCoord (co cc) = 0" "edgeOriCoord (eo cc) = 0" "sliceCoord (ep cc) = 0"
    and last: "co cc ! 7 mod 3 = 0" "eo cc ! 11 AND 1 = 0"
    and m: "m \<in> set kPhase2Moves"
  shows "cornerOriCoord (co (Tables_applyMove (initMoveEffects t) cc m)) = 0"
    and "edgeOriCoord (eo (Tables_applyMove (initMoveEffects t) cc m)) = 0"
    and "sliceCoord (ep (Tables_applyMove (initMoveEffects t) cc m)) = 0"
    and "list_all (\<lambda>x. x mod 3 = 0) (co (Tables_applyMove (initMoveEffects t) cc m))"
    and "list_all (\<lambda>x. x AND 1 = 0) (eo (Tables_applyMove (initMoveEffects t) cc m))"
proof -
  have m18: "m < 18" using m by (auto simp: kPhase2Moves_def)
  have tabs: "cOriTab ! m = replicate 8 0" "eOriTab ! m = replicate 12 0"
    "list_all (\<lambda>i. ePosTab ! m ! i \<in> set [8, 9, 10, 11]) [8, 9, 10, 11]"
    using phase2_tabs m unfolding list_all_iff by blast+
  have call: "co cc ! j mod 3 = 0" if "j < 8" for j
  proof -
    from that consider "j < 7" | "j = 7" by linarith
    then show ?thesis
      using g1(1) last(1) by cases (auto simp: cornerOriCoord_zero_iff list_all_iff)
  qed
  have eall: "eo cc ! j AND 1 = 0" if "j < 12" for j
  proof -
    from that consider "j < 11" | "j = 11" by linarith
    then show ?thesis
      using g1(2) last(2) by cases (auto simp: edgeOriCoord_zero_iff list_all_iff)
  qed
  have co': "co (Tables_applyMove (initMoveEffects t) cc m) ! i mod 3 = 0" if "i < 8" for i
    using that m18 call[OF corner_facelet_moved(2)[OF m18 that, of 0]] tabs
    by (simp add: Tables_applyMove_def initMoveEffects_rows)
  have eo': "eo (Tables_applyMove (initMoveEffects t) cc m) ! i AND 1 = 0" if "i < 12" for i
    using that m18 eall[OF edge_facelet_moved(2)[OF m18 that, of 0]] tabs
    by (simp add: Tables_applyMove_def initMoveEffects_rows)
  show "cornerOriCoord (co (Tables_applyMove (initMoveEffects t) cc m)) = 0"
    using co' by (simp add: cornerOriCoord_zero_iff list_all_iff)
  show "edgeOriCoord (eo (Tables_applyMove (initMoveEffects t) cc m)) = 0"
    using eo' by (simp add: edgeOriCoord_zero_iff list_all_iff)
  have slice: "8 \<le> ep cc ! j" if "j \<in> set [8, 9, 10, 11]" for j
    using that g1(3) by (auto simp: sliceCoord_zero_iff)
  have "8 \<le> ep (Tables_applyMove (initMoveEffects t) cc m) ! i" if "i \<in> set [8, 9, 10, 11]" for i
  proof -
    have "ePosTab ! m ! i \<in> set [8, 9, 10, 11]"
      using tabs(3) that unfolding list_all_iff by blast
    from slice[OF this] show ?thesis
      using that m18 by (auto simp: Tables_applyMove_def initMoveEffects_rows)
  qed
  then show "sliceCoord (ep (Tables_applyMove (initMoveEffects t) cc m)) = 0"
    by (simp add: sliceCoord_zero_iff)
  show "list_all (\<lambda>x. x mod 3 = 0) (co (Tables_applyMove (initMoveEffects t) cc m))"
    using co' by (simp add: list_all_length Tables_applyMove_def)
  show "list_all (\<lambda>x. x AND 1 = 0) (eo (Tables_applyMove (initMoveEffects t) cc m))"
    using eo' by (simp add: list_all_length Tables_applyMove_def)
qed

lemma sum_list_mod3_zero: "list_all (\<lambda>x. x mod 3 = 0) xs \<Longrightarrow> sum_list xs mod 3 = 0"
  for xs :: "nat list"
  by (induction xs) (auto simp: mod_add_eq[symmetric])

lemma sum_list_even: "list_all (\<lambda>x. x AND 1 = 0) xs \<Longrightarrow> sum_list xs mod 2 = 0"
  for xs :: "nat list"
  by (induction xs) (auto simp: and_one_eq)

lemma sum_list_split_last:
  fixes xs :: "nat list"
  assumes "length xs = Suc n"
  shows "sum_list xs = sum_list (take n xs) + xs ! n"
proof -
  have "take (Suc n) xs = take n xs @ [xs ! n]"
    by (rule take_Suc_conv_app_nth) (use assms in simp)
  moreover have "take (Suc n) xs = xs"
    using assms by simp
  ultimately have "xs = take n xs @ [xs ! n]" by simp
  then have "sum_list xs = sum_list (take n xs @ [xs ! n])" by simp
  then show ?thesis by simp
qed

lemma last_of_8:
  fixes xs :: "nat list"
  assumes "length xs = 8" "sum_list xs mod 3 = 0" "list_all (\<lambda>i. xs ! i mod 3 = 0) [0..<7]"
  shows "xs ! 7 mod 3 = 0"
proof -
  have "sum_list xs = sum_list (take 7 xs) + xs ! 7"
    using sum_list_split_last[of xs 7] assms(1) by simp
  moreover have "list_all (\<lambda>x. x mod 3 = 0) (take 7 xs)"
    using assms(1,3) by (simp add: list_all_length list_all_iff)
  ultimately show ?thesis
    using assms(2) sum_list_mod3_zero[of "take 7 xs"] by presburger
qed

lemma last_of_12:
  fixes xs :: "nat list"
  assumes "length xs = 12" "sum_list xs mod 2 = 0" "list_all (\<lambda>i. xs ! i AND 1 = 0) [0..<11]"
  shows "xs ! 11 AND 1 = 0"
proof -
  have "sum_list xs = sum_list (take 11 xs) + xs ! 11"
    using sum_list_split_last[of xs 11] assms(1) by simp
  moreover have "list_all (\<lambda>x. x AND 1 = 0) (take 11 xs)"
    using assms(1,3) by (simp add: list_all_length list_all_iff)
  ultimately have "xs ! 11 mod 2 = 0"
    using assms(2) sum_list_even[of "take 11 xs"] by presburger
  then show ?thesis by (simp add: and_one_eq)
qed

text \<open>
  Claim C7, as amended. For every cubie state that satisfies the two orientation
  invariants (the corner orientations sum to 0 mod 3, the edge orientations to 0 mod 2)
  and whose coordinates are \<open>CO = 0\<close>, \<open>EO = 0\<close> and \<open>SLICE = 0\<close>, each of the ten
  phase-2 moves gives a state with \<open>CO = 0\<close>, \<open>EO = 0\<close> and \<open>SLICE = 0\<close> that satisfies
  the two invariants again.
\<close>

theorem phase2_moves_preserve_G1:
  "length (co cc) = 8 \<Longrightarrow> length (eo cc) = 12 \<Longrightarrow>
   sum_list (co cc) mod 3 = 0 \<Longrightarrow> sum_list (eo cc) mod 2 = 0 \<Longrightarrow>
   cornerOriCoord (co cc) = 0 \<Longrightarrow> edgeOriCoord (eo cc) = 0 \<Longrightarrow> sliceCoord (ep cc) = 0 \<Longrightarrow>
   m \<in> set kPhase2Moves \<Longrightarrow>
   (let cc' = Tables_applyMove (initMoveEffects t) cc m
    in cornerOriCoord (co cc') = 0 \<and> edgeOriCoord (eo cc') = 0 \<and> sliceCoord (ep cc') = 0 \<and>
       sum_list (co cc') mod 3 = 0 \<and> sum_list (eo cc') mod 2 = 0)"
proof -
  assume len: "length (co cc) = 8" "length (eo cc) = 12"
    and sums: "sum_list (co cc) mod 3 = 0" "sum_list (eo cc) mod 2 = 0"
    and g1: "cornerOriCoord (co cc) = 0" "edgeOriCoord (eo cc) = 0" "sliceCoord (ep cc) = 0"
    and m: "m \<in> set kPhase2Moves"
  have last: "co cc ! 7 mod 3 = 0" "eo cc ! 11 AND 1 = 0"
    using last_of_8[OF len(1) sums(1)] last_of_12[OF len(2) sums(2)] g1
    by (simp_all add: cornerOriCoord_zero_iff edgeOriCoord_zero_iff)
  note k = phase2_keeps_G1[OF len g1 last m, of t]
  show ?thesis
    using k(1-3) sum_list_mod3_zero[OF k(4)] sum_list_even[OF k(5)] by (simp add: Let_def)
qed

theorem phase2_moves_preserve_G1_witness:
  "(let cc = \<lparr> cp = [0, 1, 2, 3, 4, 5, 6, 7], co = [0, 0, 0, 0, 0, 0, 0, 0],
               ep = [0, 1, 2, 3, 4, 5, 6, 7, 8, 9, 10, 11],
               eo = [0, 0, 0, 0, 0, 0, 0, 0, 0, 0, 0, 0] \<rparr>;
        cc' = Tables_applyMove (initMoveEffects g_tables0) cc Move_L2
    in length (co cc) = 8 \<and> length (eo cc) = 12 \<and>
       sum_list (co cc) mod 3 = 0 \<and> sum_list (eo cc) mod 2 = 0 \<and>
       cornerOriCoord (co cc) = 0 \<and> edgeOriCoord (eo cc) = 0 \<and> sliceCoord (ep cc) = 0 \<and>
       Move_L2 \<in> set kPhase2Moves \<and>
       cornerOriCoord (co cc') = 0 \<and> edgeOriCoord (eo cc') = 0 \<and> sliceCoord (ep cc') = 0 \<and>
       sum_list (co cc') mod 3 = 0 \<and> sum_list (eo cc') mod 2 = 0)"
proof -
  let ?cc = "\<lparr> cp = [0, 1, 2, 3, 4, 5, 6, 7], co = [0, 0, 0, 0, 0, 0, 0, 0],
               ep = [0, 1, 2, 3, 4, 5, 6, 7, 8, 9, 10, 11],
               eo = [0, 0, 0, 0, 0, 0, 0, 0, 0, 0, 0, 0] \<rparr> :: CubieCube"
  have h: "length (co ?cc) = 8" "length (eo ?cc) = 12"
    "sum_list (co ?cc) mod 3 = 0" "sum_list (eo ?cc) mod 2 = 0"
    "cornerOriCoord (co ?cc) = 0" "edgeOriCoord (eo ?cc) = 0" "sliceCoord (ep ?cc) = 0"
    "8 \<in> set kPhase2Moves"
    by (simp_all add: cornerOriCoord_zero_iff edgeOriCoord_zero_iff sliceCoord_zero_iff
        upt_7_11 kPhase2Moves_def)
  show ?thesis
    using h phase2_moves_preserve_G1[OF h, of g_tables0] by (simp add: Let_def)
qed

text \<open>
  Without the orientation invariants the claim fails: the cubie state of the reset cube
  with the corner DRB twisted in place has \<open>CO = 0\<close>, \<open>EO = 0\<close> and \<open>SLICE = 0\<close> (the
  coordinate leaves the last corner out), and the move D brings the twisted corner to a
  position that the coordinate counts.
\<close>

theorem phase2_moves_counterexample:
  "(let cc = \<lparr> cp = [0, 1, 2, 3, 4, 5, 6, 7], co = [0, 0, 0, 0, 0, 0, 0, 1],
               ep = [0, 1, 2, 3, 4, 5, 6, 7, 8, 9, 10, 11],
               eo = [0, 0, 0, 0, 0, 0, 0, 0, 0, 0, 0, 0] \<rparr>
    in cornerOriCoord (co cc) = 0 \<and> edgeOriCoord (eo cc) = 0 \<and> sliceCoord (ep cc) = 0 \<and>
       Move_D \<in> set kPhase2Moves \<and>
       cornerOriCoord (co (Tables_applyMove (initMoveEffects g_tables0) cc Move_D)) = 1)"
proof -
  have "Tables_applyMove (initMoveEffects g_tables0)
          \<lparr> cp = [0, 1, 2, 3, 4, 5, 6, 7], co = [0, 0, 0, 0, 0, 0, 0, 1],
            ep = [0, 1, 2, 3, 4, 5, 6, 7, 8, 9, 10, 11],
            eo = [0, 0, 0, 0, 0, 0, 0, 0, 0, 0, 0, 0] \<rparr> Move_D
        = \<lparr> cp = [0, 1, 2, 3, 5, 6, 7, 4], co = [0, 0, 0, 0, 0, 0, 1, 0],
            ep = [0, 1, 2, 3, 5, 6, 7, 4, 8, 9, 10, 11],
            eo = [0, 0, 0, 0, 0, 0, 0, 0, 0, 0, 0, 0] \<rparr>"
    by (simp add: Tables_applyMove_def initMoveEffects_rows upt_lits)
      (simp add: cPosTab_def cOriTab_def ePosTab_def eOriTab_def)
  then show ?thesis
    by (simp add: Let_def cornerOriCoord_def edgeOriCoord_def sliceCoord_zero_iff upt_7_11
        kPhase2Moves_def)
qed

section \<open>Orientation queries\<close>

text \<open>
  Claim C10. On every facelet list and every position, \<open>getCornerOrientation\<close> returns 0, 1
  or 2 and \<open>getEdgeOrientation\<close> returns 0 or 1, never \<open>-1\<close>: \<open>getEdgeOrientation\<close> is 0
  when \<open>getEdgePermutation\<close> finds no edge, and \<open>getCornerOrientation\<close> is 2 when neither
  of the first two corner facelets is white or yellow. Only the two permutation queries
  report a facelet configuration that is no cubie.
\<close>

theorem orientation_queries_never_fail:
  "getCornerOrientation s pos \<in> {0, 1, 2} \<and>
   getEdgeOrientation s pos \<in> {0, 1} \<and>
   (getEdgePermutation s pos = - 1 \<longrightarrow> getEdgeOrientation s pos = 0) \<and>
   (s ! (cornerFacelets ! pos ! 0) \<notin> {White, Yellow} \<and>
    s ! (cornerFacelets ! pos ! 1) \<notin> {White, Yellow} \<longrightarrow> getCornerOrientation s pos = 2)"
  by (simp add: getCornerOrientation_def getEdgeOrientation_def Let_def)

theorem orientation_queries_never_fail_witness:
  "getEdgePermutation (replicate 54 Red) 0 = - 1 \<and>
   getEdgeOrientation (replicate 54 Red) 0 = 0 \<and>
   getCornerPermutation (replicate 54 Red) 0 = - 1 \<and>
   getCornerOrientation (replicate 54 Red) 0 = 2"
  using orientation_queries_never_fail[of "replicate 54 Red" 0]
  by (simp add: getEdgePermutation_def getCornerPermutation_def cornerFacelets_def edgeFacelets_def
      edgeColors_def cornerColors_def upt_lits Let_def)

section \<open>The move pruning rule\<close>

lemma sdiv_nonneg: "0 \<le> a \<Longrightarrow> 0 < b \<Longrightarrow> a sdiv b = a div b" for a b :: int
  by (simp add: signed_divide_int_def sgn_if)

lemma same_axis_iff:
  fixes a b :: int
  assumes "0 \<le> a" "a < 6" "0 \<le> b" "b < 6"
  shows "(a div 2 = b div 2 \<and> a \<noteq> b) = oppositeFaces a b"
proof -
  have "a \<in> {0, 1, 2, 3, 4, 5}" "b \<in> {0, 1, 2, 3, 4, 5}"
    using assms by auto
  then show ?thesis
    by (elim insertE emptyE; simp add: oppositeFaces_def)
qed

text \<open>
  Claim C8. For a move \<open>0..17\<close> and a last move that is negative or a move, \<open>moveAllowed\<close>
  (and \<open>moveAllowedPrune\<close>, which has the same value) is true when the last move is
  negative; otherwise it is false exactly when both moves turn the same face, or the two
  faces are opposite and the face of \<open>move\<close> has the smaller index.
\<close>

theorem moveAllowed_rule:
  assumes "0 \<le> move" "move < 18" "lastMove < 18"
  shows "moveAllowed move lastMove =
           (lastMove < 0 \<or>
            \<not> (move div 3 = lastMove div 3 \<or>
               (oppositeFaces (move div 3) (lastMove div 3) \<and> move div 3 < lastMove div 3)))
         \<and> moveAllowedPrune move lastMove = moveAllowed move lastMove"
proof (cases "lastMove < 0")
  case True
  then show ?thesis by (simp add: moveAllowed_def moveAllowedPrune_def)
next
  case False
  then have l: "0 \<le> lastMove" by simp
  define a where "a = move div 3"
  define b where "b = lastMove div 3"
  have a: "0 \<le> a" "a < 6" and b: "0 \<le> b" "b < 6"
    using assms l by (auto simp: a_def b_def)
  have eq: "moveAllowedPrune move lastMove = moveAllowed move lastMove"
    by (simp add: moveAllowed_def moveAllowedPrune_def)
  have "moveAllowed move lastMove = (\<not> (a = b \<or> (a div 2 = b div 2 \<and> a < b)))"
    using False assms l a b
    by (simp add: moveAllowed_def Let_def sdiv_nonneg a_def[symmetric] b_def[symmetric])
  also have "\<dots> = (\<not> (a = b \<or> (oppositeFaces a b \<and> a < b)))"
    using same_axis_iff[OF a b] by auto
  finally show ?thesis
    using False eq by (simp add: a_def b_def)
qed

theorem moveAllowed_rule_witness:
  "moveAllowed 3 0 \<and> \<not> moveAllowed 0 3 \<and> \<not> moveAllowed 1 2 \<and> moveAllowed 6 0 \<and> moveAllowed 0 (- 1)
   \<and> moveAllowedPrune 0 3 = moveAllowed 0 3"
  using moveAllowed_rule[of 3 0] moveAllowed_rule[of 0 3] moveAllowed_rule[of 1 2] moveAllowed_rule[of 6 0] moveAllowed_rule[of 0 "- 1"]
  by (simp add: oppositeFaces_def)

section \<open>Building the tables\<close>

subsection \<open>The breadth-first searches end\<close>

text \<open>
  Every round of \<open>pruneLoop\<close> either takes an entry away from the ones that hold
  \<^verbatim>\<open>0xFF\<close>, or leaves the table as it is and lowers the work that is pending in the queue.
  So the loop ends, whatever the move tables are; it keeps the length of the table and
  every entry that is not \<^verbatim>\<open>0xFF\<close>.
\<close>

lemma at_255: "at xs i = 255 \<Longrightarrow> i < length xs \<and> xs ! i = 255"
  by (simp add: at_def split: if_splits)

lemma unvisited_update:
  assumes "i < length xs" "xs ! i = 255" "w \<noteq> 255"
  shows "unvisited (xs[i := w]) < unvisited xs"
proof -
  have "255 \<in># mset xs" using assms(1,2) by (metis nth_mem set_mset_mset)
  then have "0 < count (mset xs) 255" by simp
  then show ?thesis
    using assms by (simp add: unvisited_def mset_update)
qed

lemma pruneExpand_props:
  assumes "pruneExpand sizeB moveA moveB a b d ms (prune, q) = (prune', q')"
  shows "length prune' = length prune \<and>
     (\<forall>i<length prune. prune ! i \<noteq> 255 \<longrightarrow> prune' ! i = prune ! i) \<and>
     (\<exists>new. q' = q @ new \<and> length new \<le> length ms \<and>
        ((prune' = prune \<and> (\<forall>i\<in>set new. at prune i = 255) \<and>
            (new \<noteq> [] \<longrightarrow> (d + 1) mod 256 = 255))
         \<or> unvisited prune' < unvisited prune))"
  using assms
proof (induction ms arbitrary: prune q)
  case Nil
  then show ?case by simp
next
  case (Cons m ms)
  let ?nidx = "at2 moveA a m * sizeB + at2 moveB b m"
  let ?w = "(d + 1) mod 256"
  show ?case
  proof (cases "at prune ?nidx = 255")
    case False
    with Cons.prems have "pruneExpand sizeB moveA moveB a b d ms (prune, q) = (prune', q')"
      by (simp add: Let_def)
    from Cons.IH[OF this] show ?thesis
      by (auto intro: le_SucI)
  next
    case True
    then have n: "?nidx < length prune" "prune ! ?nidx = 255"
      using at_255 by blast+
    let ?p1 = "prune[?nidx := ?w]"
    from True Cons.prems
    have "pruneExpand sizeB moveA moveB a b d ms (?p1, q @ [?nidx]) = (prune', q')"
      by (simp add: Let_def)
    note ih = Cons.IH[OF this]
    from ih have len: "length prune' = length prune" by simp
    have keep: "prune' ! i = prune ! i" if "i < length prune" "prune ! i \<noteq> 255" for i
    proof -
      from that n have "i \<noteq> ?nidx" by auto
      then have "?p1 ! i = prune ! i" by simp
      with ih that show ?thesis by simp
    qed
    from ih obtain new where new: "q' = (q @ [?nidx]) @ new" "length new \<le> length ms"
      "(prune' = ?p1 \<and> (\<forall>i\<in>set new. at ?p1 i = 255) \<and> (new \<noteq> [] \<longrightarrow> ?w = 255))
         \<or> unvisited prune' < unvisited ?p1"
      by blast
    have "\<exists>new. q' = q @ new \<and> length new \<le> length (m # ms) \<and>
        ((prune' = prune \<and> (\<forall>i\<in>set new. at prune i = 255) \<and> (new \<noteq> [] \<longrightarrow> ?w = 255))
         \<or> unvisited prune' < unvisited prune)"
    proof (cases "?w = 255")
      case w: True
      then have same: "?p1 = prune" using n by (metis list_update_id)
      show ?thesis
        using new True w unfolding same
        by (intro exI[of _ "?nidx # new"]) auto
    next
      case w: False
      have "unvisited ?p1 < unvisited prune"
        using unvisited_update[OF n w] .
      with new(3) w have "unvisited prune' < unvisited prune"
        by auto
      with new(1,2) show ?thesis
        by (intro exI[of _ "?nidx # new"]) auto
    qed
    with len keep show ?thesis by blast
  qed
qed

lemma mod_256_pred: "(x + 1) mod 256 = 255 \<Longrightarrow> x mod 256 = (254::nat)"
  by (simp add: mod_Suc split: if_splits)

lemma pending_step:
  assumes "head < length q" "\<forall>i\<in>set new. at prune i = 255" "length new \<le> n"
    "new \<noteq> [] \<longrightarrow> (at prune (q ! head) + 1) mod 256 = 255"
  shows "pending n prune (q @ new) (head + 1) < pending n prune q head"
proof -
  have d: "drop head q = q ! head # drop (Suc head) q"
    using assms(1) by (simp add: Cons_nth_drop_Suc)
  have "sum_list (map (\<lambda>i. cost n (at prune i)) new) = length new"
    using assms(2) by (induction new) (simp_all add: cost_def)
  then have l: "pending n prune (q @ new) (head + 1)
      = sum_list (map (\<lambda>i. cost n (at prune i)) (drop (Suc head) q)) + length new"
    using assms(1) by (simp add: pending_def)
  have r: "pending n prune q head
      = cost n (at prune (q ! head)) + sum_list (map (\<lambda>i. cost n (at prune i)) (drop (Suc head) q))"
    by (simp add: pending_def d)
  have "length new < cost n (at prune (q ! head))"
  proof (cases "new = []")
    case True
    then show ?thesis by (simp add: cost_def)
  next
    case False
    with assms(4) have "(at prune (q ! head) + 1) mod 256 = 255" by simp
    then have "at prune (q ! head) mod 256 = 254"
      by (rule mod_256_pred)
    with assms(3) show ?thesis by (simp add: cost_def)
  qed
  with l r show ?thesis by simp
qed


lemma pruneLoop_returns:
  "\<exists>r. pruneLoop sizeB moveA moveB moves prune q head = Some r \<and> length r = length prune \<and>
     (\<forall>i<length prune. prune ! i \<noteq> 255 \<longrightarrow> r ! i = prune ! i)"
proof (induction "unvisited prune" arbitrary: prune q head rule: less_induct)
  case less
  note outer = less
  show ?case
  proof (induction "pending (length moves) prune q head" arbitrary: q head rule: less_induct)
    case less
    show ?case
    proof (cases "head < length q")
      case False
      then show ?thesis by (subst pruneLoop.simps) simp
    next
      case True
      obtain prune' q' where e: "pruneExpand sizeB moveA moveB (q ! head div sizeB)
          (q ! head mod sizeB) (at prune (q ! head)) moves (prune, q) = (prune', q')"
        by (cases "pruneExpand sizeB moveA moveB (q ! head div sizeB)
          (q ! head mod sizeB) (at prune (q ! head)) moves (prune, q)")
      have step: "pruneLoop sizeB moveA moveB moves prune q head
          = pruneLoop sizeB moveA moveB moves prune' q' (head + 1)"
        using True e by (subst pruneLoop.simps) (simp add: Let_def)
      note p = pruneExpand_props[OF e]
      from p have len: "length prune' = length prune"
        and keep: "\<And>i. i < length prune \<Longrightarrow> prune ! i \<noteq> 255 \<Longrightarrow> prune' ! i = prune ! i"
        by simp_all
      from p obtain new where new: "q' = q @ new" "length new \<le> length moves"
        "(prune' = prune \<and> (\<forall>i\<in>set new. at prune i = 255) \<and>
            (new \<noteq> [] \<longrightarrow> (at prune (q ! head) + 1) mod 256 = 255))
         \<or> unvisited prune' < unvisited prune"
        by blast
      from new(3) have "\<exists>r. pruneLoop sizeB moveA moveB moves prune' q' (head + 1) = Some r \<and>
          length r = length prune' \<and> (\<forall>i<length prune'. prune' ! i \<noteq> 255 \<longrightarrow> r ! i = prune' ! i)"
      proof
        assume a: "prune' = prune \<and> (\<forall>i\<in>set new. at prune i = 255) \<and>
            (new \<noteq> [] \<longrightarrow> (at prune (q ! head) + 1) mod 256 = 255)"
        then have "pending (length moves) prune q' (head + 1) < pending (length moves) prune q head"
          unfolding new(1) using pending_step[OF True _ new(2)] by blast
        from less[OF this] a show ?thesis by simp
      next
        assume "unvisited prune' < unvisited prune"
        from outer(1)[OF this] show ?thesis .
      qed
      then obtain r where r: "pruneLoop sizeB moveA moveB moves prune' q' (head + 1) = Some r"
        "length r = length prune'" "\<And>i. i < length prune' \<Longrightarrow> prune' ! i \<noteq> 255 \<Longrightarrow> r ! i = prune' ! i"
        by blast
      have "r ! i = prune ! i" if "i < length prune" "prune ! i \<noteq> 255" for i
        using keep[OF that] r(3)[of i] that len by simp
      with r(1,2) len step show ?thesis by simp
    qed
  qed
qed

lemma buildPrune_returns:
  assumes "0 < sizeA * sizeB"
  shows "\<exists>r. buildPrune sizeA sizeB moveA moveB n = Some r \<and> length r = sizeA * sizeB \<and> r ! 0 = 0"
proof -
  let ?p = "(replicate (sizeA * sizeB) 255)[0 := 0::nat]"
  from pruneLoop_returns[of sizeB moveA moveB "[0..<n]" ?p "[0]" 0]
  obtain r where r: "pruneLoop sizeB moveA moveB [0..<n] ?p [0] 0 = Some r"
    "length r = length ?p" "\<forall>i<length ?p. ?p ! i \<noteq> 255 \<longrightarrow> r ! i = ?p ! i"
    by blast
  from r(3) assms have "r ! 0 = 0" by simp
  with r(1,2) show ?thesis by (simp add: buildPrune_def)
qed

text \<open>\<^verbatim>\<open>tables()\<close> returns; entry 0 of every pruning table is 0.\<close>

lemma tables_returns:
  "\<exists>t. tables = Some t \<and>
     length (pruneCoSlice t) = kCO * kSLICE \<and> pruneCoSlice t ! 0 = 0 \<and>
     length (pruneEoSlice t) = kEO * kSLICE \<and> pruneEoSlice t ! 0 = 0 \<and>
     length (pruneCpSp t) = kCP * kSP \<and> pruneCpSp t ! 0 = 0 \<and>
     length (pruneEpSp t) = kCP * kSP \<and> pruneEpSp t ! 0 = 0 \<and>
     cPos t = cPos (initMoveEffects g_tables0) \<and> cOri t = cOri (initMoveEffects g_tables0) \<and>
     ePos t = ePos (initMoveEffects g_tables0) \<and> eOri t = eOri (initMoveEffects g_tables0) \<and>
     invMove t = invMove (initMoveEffects g_tables0)"
proof -
  let ?t = "initPhase2Moves (initPhase1Moves (initMoveEffects g_tables0))"
  have pos: "0 < kCO * kSLICE" "0 < kEO * kSLICE" "0 < kCP * kSP"
    by (simp_all add: kCO_def kEO_def kSLICE_def kCP_def kSP_def)
  obtain p1 where p1: "buildPrune kCO kSLICE (coMove ?t) (sliceMove ?t) kNumMoves = Some p1"
    "length p1 = kCO * kSLICE" "p1 ! 0 = 0"
    using buildPrune_returns[OF pos(1)] by blast
  obtain p2 where p2: "buildPrune kEO kSLICE (eoMove ?t) (sliceMove ?t) kNumMoves = Some p2"
    "length p2 = kEO * kSLICE" "p2 ! 0 = 0"
    using buildPrune_returns[OF pos(2)] by blast
  obtain p3 where p3: "buildPrune kCP kSP (cpMove ?t) (spMove ?t) kNumPhase2Moves = Some p3"
    "length p3 = kCP * kSP" "p3 ! 0 = 0"
    using buildPrune_returns[OF pos(3)] by blast
  obtain p4 where p4: "buildPrune kCP kSP (epMove ?t) (spMove ?t) kNumPhase2Moves = Some p4"
    "length p4 = kCP * kSP" "p4 ! 0 = 0"
    using buildPrune_returns[OF pos(3)] by blast
  have "Tables_init g_tables0 = Some (?t\<lparr>pruneCoSlice := p1, pruneEoSlice := p2,
      pruneCpSp := p3, pruneEpSp := p4\<rparr>)"
    by (simp add: Tables_init_def initPrune_def p1(1) p2(1) p3(1) p4(1))
  then show ?thesis
    unfolding tables_def
    by (simp add: p1 p2 p3 p4 initPhase2Moves_def initPhase1Moves_def)
qed

subsection \<open>A read past the end of a pruning table\<close>

lemma reset_lit: "reset =
     [White, White, White, White, White, White, White, White, White, Yellow, Yellow,
      Yellow, Yellow, Yellow, Yellow, Yellow, Yellow, Yellow, Green, Green, Green, Green,
      Green, Green, Green, Green, Green, Blue, Blue, Blue, Blue, Blue, Blue, Blue, Blue,
      Blue, Red, Red, Red, Red, Red, Red, Red, Red, Red, Orange, Orange, Orange, Orange,
      Orange, Orange, Orange, Orange, Orange]"
  by (simp add: reset_def upt_lits kFaceColor_def numeral_eq_Suc)

lemma twistedState_reached: "applyMoves scramble23 reset = twistedState"
  unfolding scramble23_def reset_lit
  by (simp add: applyMove_movePerm movePerm_def gather_def perm_defs twistedState_def)


lemma twistedState_cubie:
  "toCubie twistedState =
     \<lparr> cp = [0, 1, 2, 3, 4, 5, 6, 7], co = [2, 2, 2, 2, 2, 2, 2, 1],
       ep = [8, 9, 10, 11, 4, 5, 6, 7, 0, 1, 2, 3],
       eo = [0, 0, 0, 0, 0, 0, 0, 0, 0, 0, 0, 0] \<rparr>"
  by code_simp

lemma twistedState_solvable: "isSolvable twistedState" "\<not> isSolved twistedState"
  by code_simp+

text \<open>
  The first node of the phase-1 search on this cube reads \<^verbatim>\<open>pruneCoSlice\<close> past its end:
  the corner orientation coordinate is 2186 and \<open>sliceCoord\<close> gives 792.
\<close>

lemma twistedState_root:
  assumes "tables = Some t"
  shows "length (pruneCoSlice t) \<le> cornerOriCoord (co (toCubie twistedState)) * kSLICE
      + sliceCoord (ep (toCubie twistedState))"
proof -
  have "cornerOriCoord (co (toCubie twistedState)) = 2186"
    unfolding twistedState_cubie by code_simp
  moreover have "sliceCoord (ep (toCubie twistedState)) = 792"
    unfolding twistedState_cubie by code_simp
  moreover have "length (pruneCoSlice t) = kCO * kSLICE"
    using tables_returns assms by (metis option.inject)
  ultimately show ?thesis
    by (simp add: kCO_def kSLICE_def)
qed

section \<open>Solver::solve\<close>


lemma cancelRequested_None [simp]: "cancelRequested None env = (False, env)"
  by (simp add: cancelRequested_def)

lemma progress_cancelRequested [simp]:
  "progress (snd (cancelRequested cancel env)) = progress env"
  by (simp add: cancelRequested_def split: option.split)


text \<open>Every call returns, with the cube it was given.\<close>

lemma solve_returns: "\<exists>ms env'. solve cube cancel env = Some (ms, cube, env')"
proof -
  obtain t where t: "tables = Some t"
    using tables_returns by blast
  show ?thesis
    unfolding solve_def
    by (simp add: t Let_def split: prod.split bool.split)
qed

subsection \<open>A cube that passes \<^verbatim>\<open>isSolvable\<close> and is not solved\<close>

lemma centresExchanged_lit: "centresExchanged =
     [White, White, White, White, Yellow, White, White, White, White, Yellow, Yellow,
      Yellow, Yellow, White, Yellow, Yellow, Yellow, Yellow, Green, Green, Green, Green,
      Green, Green, Green, Green, Green, Blue, Blue, Blue, Blue, Blue, Blue, Blue, Blue,
      Blue, Red, Red, Red, Red, Red, Red, Red, Red, Red, Orange, Orange, Orange, Orange,
      Orange, Orange, Orange, Orange, Orange]"
  unfolding centresExchanged_def reset_lit by simp

lemma centresExchanged_solvable: "isSolvable centresExchanged" "\<not> isSolved centresExchanged"
  unfolding centresExchanged_lit by code_simp+

lemma centresExchanged_cubie:
  "toCubie centresExchanged =
     \<lparr> cp = [0, 1, 2, 3, 4, 5, 6, 7], co = [0, 0, 0, 0, 0, 0, 0, 0],
       ep = [0, 1, 2, 3, 4, 5, 6, 7, 8, 9, 10, 11],
       eo = [0, 0, 0, 0, 0, 0, 0, 0, 0, 0, 0, 0] \<rparr>"
  unfolding centresExchanged_lit by code_simp

lemma foldl_add_zero:
  "(\<And>i. i \<in> set xs \<Longrightarrow> f i = 0) \<Longrightarrow> foldl (\<lambda>coord i. coord + f i) a xs = (a::nat)"
  by (induction xs arbitrary: a) simp_all

lemma foldl_count_zero:
  "(\<And>j. j \<in> set js \<Longrightarrow> \<not> P j) \<Longrightarrow> foldl (\<lambda>cnt j. if P j then cnt + 1 else cnt) a js = (a::nat)"
  by (induction js arbitrary: a) simp_all

lemma perm8Coord_ascending:
  assumes "\<And>i j. i < j \<Longrightarrow> j < 8 \<Longrightarrow> p ! i \<le> p ! j"
  shows "perm8Coord p = 0"
proof -
  have c: "foldl (\<lambda>cnt j. if p ! j < p ! i then cnt + 1 else cnt) (0::nat) [i + 1..<8] = 0" for i
  proof (rule foldl_count_zero)
    fix j assume "j \<in> set [i + 1..<8]"
    then have "i < j" "j < 8" by simp_all
    from assms[OF this] show "\<not> p ! j < p ! i" by simp
  qed
  have "perm8Coord p = foldl (\<lambda>coord i. coord +
      foldl (\<lambda>cnt j. if p ! j < p ! i then cnt + 1 else cnt) (0::nat) [i + 1..<8] * (kFact8 ! (7 - i))) 0 [0..<8]"
    unfolding perm8Coord_def Let_def ..
  also have "\<dots> = 0"
    by (rule foldl_add_zero) (simp only: c mult_0)
  finally show ?thesis .
qed


lemma perm4Coord_ascending:
  assumes "\<And>i j. i < j \<Longrightarrow> j < 4 \<Longrightarrow> p ! i \<le> p ! j"
  shows "perm4Coord p = 0"
proof -
  have c: "foldl (\<lambda>cnt j. if p ! j < p ! i then cnt + 1 else cnt) (0::nat) [i + 1..<4] = 0" for i
  proof (rule foldl_count_zero)
    fix j assume "j \<in> set [i + 1..<4]"
    then have "i < j" "j < 4" by simp_all
    from assms[OF this] show "\<not> p ! j < p ! i" by simp
  qed
  have "perm4Coord p = foldl (\<lambda>coord i. coord +
      foldl (\<lambda>cnt j. if p ! j < p ! i then cnt + 1 else cnt) (0::nat) [i + 1..<4] * (kFact4 ! (3 - i))) 0 [0..<4]"
    unfolding perm4Coord_def Let_def ..
  also have "\<dots> = 0"
    by (rule foldl_add_zero) (simp only: c mult_0)
  finally show ?thesis .
qed

lemma identity_coords:
  "perm8Coord [0..<8] = 0" "edgePermCoord8_fromEp [0..<12] = 0" "slicePermCoord_fromEp [0..<12] = 0"
proof -
  show "perm8Coord [0..<8] = 0"
    by (rule perm8Coord_ascending) simp
  show "edgePermCoord8_fromEp [0..<12] = 0"
    unfolding edgePermCoord8_fromEp_def by (rule perm8Coord_ascending) simp
  have "u8 (int ([0..<12] ! (8 + i)) - 8) = i" if "i < 4" for i
    using that by (simp add: u8_def)
  then show "slicePermCoord_fromEp [0..<12] = 0"
    unfolding slicePermCoord_fromEp_def by (intro perm4Coord_ascending) simp
qed

lemma centresExchanged_coords:
  "cornerOriCoord (co (toCubie centresExchanged)) = 0"
  "edgeOriCoord (eo (toCubie centresExchanged)) = 0"
  "sliceCoord (ep (toCubie centresExchanged)) = 0"
  "perm8Coord (cp (toCubie centresExchanged)) = 0"
  "edgePermCoord8_fromEp (ep (toCubie centresExchanged)) = 0"
  "slicePermCoord_fromEp (ep (toCubie centresExchanged)) = 0"
proof -
  show "cornerOriCoord (co (toCubie centresExchanged)) = 0"
    "edgeOriCoord (eo (toCubie centresExchanged)) = 0"
    "sliceCoord (ep (toCubie centresExchanged)) = 0"
    unfolding centresExchanged_cubie by code_simp+
  show "perm8Coord (cp (toCubie centresExchanged)) = 0"
    "edgePermCoord8_fromEp (ep (toCubie centresExchanged)) = 0"
    "slicePermCoord_fromEp (ep (toCubie centresExchanged)) = 0"
    using identity_coords by (simp_all add: centresExchanged_cubie upt_lits)
qed

text \<open>
  On a cube whose cubies are all in place the first phase-1 node is in the subgroup, the
  first phase-2 node has the coordinates of the solved cube, and the search succeeds with
  two empty paths.
\<close>

lemma solve1_cubies_in_place:
  assumes "\<not> isSolved cube" "isSolvable cube" "toCubie cube = toCubie centresExchanged"
  shows "solve1 cube = Some ([], cube, \<lparr>polls = 0, progress = None\<rparr>)"
proof -
  obtain t where t: "tables = Some t"
    and z: "at (pruneCoSlice t) 0 = 0" "at (pruneEoSlice t) 0 = 0"
      "at (pruneCpSp t) 0 = 0" "at (pruneEpSp t) 0 = 0"
    using tables_returns by (auto simp: at_def)
  let ?env = "\<lparr>polls = 0, progress = None\<rparr>"
  have e: "countNode ?env = ?env" "storeDepth d ?env = ?env" "storeNodes n ?env = ?env" for d n
    by (simp_all add: countNode_def storeDepth_def storeNodes_def)
  have s2: "searchPhase2 t None 0 0 0 0 (- 1) [] ?env = (True, [], ?env)"
    by (subst searchPhase2.simps) (simp add: e z)
  have p2: "phase2Depths t None 0 0 0 0 31 ?env = (True, [], ?env)"
    by (subst phase2Depths.simps) (simp add: s2)
  have s1: "searchPhase1 t None (toCubie centresExchanged) 0 (- 1) [] [] kMaxTotal ?env
      = (True, toCubie centresExchanged, [], [], ?env)"
    by (subst searchPhase1.simps)
      (simp add: e z centresExchanged_coords kMaxTotal_def p2)
  have "solveDepths t None (toCubie centresExchanged) 0 ?env = ([], ?env)"
    by (subst solveDepths.simps) (simp add: e s1)
  with assms show ?thesis
    by (simp add: solve1_def solve_def t e)
qed

text \<open>
  Claim C1. Every cube that passes \<^verbatim>\<open>isSolvable\<close> and is not solved is solved by \<^verbatim>\<open>solve\<close>,
  in at most 31 moves. The code does not do that on the reset cube with the centres of U
  and D exchanged: \<^verbatim>\<open>isSolvable\<close> counts the colours and checks the corners and the edges,
  not the centres, so the cube passes; its cubies are all in place, so \<^verbatim>\<open>solve\<close> returns
  the empty sequence; and the cube is not solved.
\<close>

theorem solve_returns_no_solution:
  "isSolvable centresExchanged \<and> \<not> isSolved centresExchanged \<and>
   solve1 centresExchanged = Some ([], centresExchanged, \<lparr>polls = 0, progress = None\<rparr>) \<and>
   \<not> isSolved (applyMoves [] centresExchanged)"
  using centresExchanged_solvable
    solve1_cubies_in_place[OF centresExchanged_solvable(2) centresExchanged_solvable(1) refl]
  by simp



text \<open>
  Claim C9. \<^verbatim>\<open>solve\<close> never mutates the caller's cube: every call returns, and the 54
  facelets of the cube are then the ones at entry, on a solvable cube or not, whatever
  the cancel flag and the progress record. The search works on \<^term>\<open>toCubie cube\<close>, a
  local cubie state.
\<close>

theorem solve_leaves_cube_unchanged:
  "\<exists>ms env'. solve cube cancel env = Some (ms, cube, env')"
  by (rule solve_returns)

end
